theory Spec2Isabelle
  imports Main "HOL-Library.AList"
begin

section \<open>Python values, exceptions and dictionaries\<close>

text \<open>
  The module \<^verbatim>\<open>amplify/agent/util/ssl.py\<close> is Python 2 code: byte strings, an eager
  \<^verbatim>\<open>map\<close> that returns a list, dictionaries with string keys. Exceptions are values:
  \<open>exn\<close> lists the \<^verbatim>\<open>Exception\<close> subclasses that the code or its collaborators raise,
  and a computation that can raise returns \<open>exn + 'a\<close>.
\<close>

datatype exn = IOError | OSError | ValueError | TypeError | KeyError | IndexError

type_synonym 'v dict = "(string \<times> 'v) list"

datatype pyval =
    VNone
  | VInt int
  | VStr string
  | VList "string list"
  | VStrDict "string dict"
  | VIntDict "int dict"

text \<open>\<^verbatim>\<open>d.update(other)\<close>: every entry of \<open>other\<close> is stored into \<open>d\<close>.\<close>

definition dict_update :: "'v dict \<Rightarrow> 'v dict \<Rightarrow> 'v dict" where
  "dict_update d other = fold (\<lambda>(k, v). AList.update k v) other d"

text \<open>\<^verbatim>\<open>results or None\<close>: an empty dictionary is falsy.\<close>

definition or_none :: "'v dict \<Rightarrow> 'v dict option" where
  "or_none d = (if d = [] then None else Some d)"

text \<open>Truthiness of a value, as \<^verbatim>\<open>if x:\<close> tests it.\<close>

fun truthy :: "pyval \<Rightarrow> bool" where
  "truthy VNone = False"
| "truthy (VInt n) = (n \<noteq> 0)"
| "truthy (VStr s) = (s \<noteq> [])"
| "truthy (VList xs) = (xs \<noteq> [])"
| "truthy (VStrDict d) = (d \<noteq> [])"
| "truthy (VIntDict d) = (d \<noteq> [])"

text \<open>\<^verbatim>\<open>xs[n]\<close> for a non-negative constant index: IndexError out of range.\<close>

definition index_at :: "'a list \<Rightarrow> nat \<Rightarrow> exn + 'a" where
  "index_at xs n = (if n < length xs then Inr (xs ! n) else Inl IndexError)"

text \<open>A loop whose body can raise stops at the first exception.\<close>

fun foldE :: "('a \<Rightarrow> 'b \<Rightarrow> exn + 'a) \<Rightarrow> 'b list \<Rightarrow> 'a \<Rightarrow> exn + 'a" where
  "foldE f [] a = Inr a"
| "foldE f (x # xs) a = (case f a x of Inl e \<Rightarrow> Inl e | Inr a' \<Rightarrow> foldE f xs a')"

fun mapE :: "('a \<Rightarrow> exn + 'b) \<Rightarrow> 'a list \<Rightarrow> exn + 'b list" where
  "mapE f [] = Inr []"
| "mapE f (x # xs) =
     (case f x of
        Inl e \<Rightarrow> Inl e
      | Inr y \<Rightarrow> (case mapE f xs of Inl e \<Rightarrow> Inl e | Inr ys \<Rightarrow> Inr (y # ys)))"

section \<open>String operations\<close>

text \<open>
  \<^verbatim>\<open>s.split(sep)\<close> for a non-empty separator \<open>c # cs\<close>: the pieces between the
  non-overlapping occurrences of the separator, scanned from the left.
\<close>

fun py_split :: "char \<Rightarrow> string \<Rightarrow> string \<Rightarrow> string list" where
  "py_split c cs [] = [[]]"
| "py_split c cs (x # xs) =
     (if x = c \<and> take (length cs) xs = cs
      then [] # py_split c cs (drop (length cs) xs)
      else (case py_split c cs xs of [] \<Rightarrow> [[x]] | p # ps \<Rightarrow> (x # p) # ps))"

definition digit_char :: "char \<Rightarrow> bool" where
  "digit_char c = (c \<in> set ''0123456789'')"

definition word_char :: "char \<Rightarrow> bool" where
  "word_char c =
     (c \<in> set ''abcdefghijklmnopqrstuvwxyzABCDEFGHIJKLMNOPQRSTUVWXYZ0123456789_'')"

definition space_char :: "char \<Rightarrow> bool" where
  "space_char c = (c \<in> set [CHR '' '', CHR 0x09, CHR 0x0A, CHR 0x0B, CHR 0x0C, CHR 0x0D])"

definition any_char :: "char \<Rightarrow> bool" where
  "any_char c = (c \<noteq> CHR 0x0A)"

text \<open>The value of a decimal digit: its place among the ten digits.\<close>

definition digit_val :: "char \<Rightarrow> int" where
  "digit_val c = int (length (takeWhile (\<lambda>d. d \<noteq> c) ''0123456789''))"

definition py_strip :: "string \<Rightarrow> string" where
  "py_strip s = rev (dropWhile space_char (rev (dropWhile space_char s)))"

text \<open>
  \<^verbatim>\<open>int(s)\<close> on a string: surrounding whitespace, an optional sign, then one or more
  decimal digits; anything else raises ValueError.
\<close>

definition py_int :: "string \<Rightarrow> exn + int" where
  "py_int s =
     (let t = py_strip s;
          neg = (t \<noteq> [] \<and> hd t = CHR ''-'');
          ds = (if t \<noteq> [] \<and> (hd t = CHR ''-'' \<or> hd t = CHR ''+'') then tl t else t)
      in if ds \<noteq> [] \<and> list_all digit_char ds
         then Inr ((if neg then - 1 else 1) * fold (\<lambda>d n. 10 * n + digit_val d) ds 0)
         else Inl ValueError)"

section \<open>Regular expressions\<close>

text \<open>
  The patterns of the module use literals, named groups, and greedy \<^verbatim>\<open>*\<close> and \<^verbatim>\<open>+\<close>
  over a single character class. \<open>runs r s c\<close> lists, in the order in which the
  backtracking matcher of \<^verbatim>\<open>re\<close> tries them, the ways \<open>r\<close> matches a prefix of \<open>s\<close>:
  the rest of the string and the groups captured so far.
\<close>

datatype re =
    Lit string
  | Star "char \<Rightarrow> bool"
  | Plus "char \<Rightarrow> bool"
  | Seq re re
  | Named string re

text \<open>The rests after a greedy run of characters of a class, the longest run first.\<close>

fun splits :: "(char \<Rightarrow> bool) \<Rightarrow> string \<Rightarrow> string list" where
  "splits p [] = [[]]"
| "splits p (x # xs) = (if p x then splits p xs @ [x # xs] else [x # xs])"

fun runs :: "re \<Rightarrow> string \<Rightarrow> string dict \<Rightarrow> (string \<times> string dict) list" where
  "runs (Lit l) s c = (if take (length l) s = l then [(drop (length l) s, c)] else [])"
| "runs (Star p) s c = map (\<lambda>r. (r, c)) (splits p s)"
| "runs (Plus p) s c = map (\<lambda>r. (r, c)) (butlast (splits p s))"
| "runs (Seq a b) s c = concat (map (\<lambda>(r, c'). runs b r c') (runs a s c))"
| "runs (Named g a) s c =
     map (\<lambda>(r, c'). (r, AList.update g (take (length s - length r) s) c')) (runs a s c)"

text \<open>\<^verbatim>\<open>regex.match(line)\<close>: the first way to match at the start; its \<^verbatim>\<open>groupdict()\<close>.\<close>

definition re_match :: "re \<Rightarrow> string \<Rightarrow> string dict option" where
  "re_match r s = (case runs r s [] of [] \<Rightarrow> None | (rest, c) # _ \<Rightarrow> Some c)"

definition match_len :: "re \<Rightarrow> string \<Rightarrow> nat option" where
  "match_len r s =
     (case runs r s [] of [] \<Rightarrow> None | (rest, c) # _ \<Rightarrow> Some (length s - length rest))"

text \<open>
  \<^verbatim>\<open>regex.findall(line)\<close> for a pattern without groups: the matched texts, scanning
  from the left; \<open>skip\<close> counts the characters of the last match still to pass.
\<close>

fun findall_from :: "re \<Rightarrow> nat \<Rightarrow> string \<Rightarrow> string list" where
  "findall_from r skip [] =
     (if skip = 0 then (case match_len r [] of None \<Rightarrow> [] | Some n \<Rightarrow> [[]]) else [])"
| "findall_from r skip (x # xs) =
     (if 0 < skip then findall_from r (skip - 1) xs
      else (case match_len r (x # xs) of
              None \<Rightarrow> findall_from r 0 xs
            | Some n \<Rightarrow> take n (x # xs) # findall_from r (n - 1) xs))"

definition findall :: "re \<Rightarrow> string \<Rightarrow> string list" where
  "findall r s = findall_from r 0 s"

subsection \<open>The pattern catalog\<close>

definition dn_pattern :: "string \<Rightarrow> string \<Rightarrow> (char \<Rightarrow> bool) \<Rightarrow> re" where
  "dn_pattern tag name cls =
     Seq (Star any_char) (Seq (Lit tag) (Seq (Named name (Plus cls)) (Star any_char)))"

definition ssl_regexs :: "re list" where
  "ssl_regexs =
    [dn_pattern ''/C='' ''country'' word_char,
     dn_pattern ''/ST='' ''state'' (\<lambda>c. word_char c \<or> space_char c),
     dn_pattern ''/L='' ''location'' (\<lambda>c. word_char c \<or> space_char c),
     dn_pattern ''/O='' ''organization''
       (\<lambda>c. word_char c \<or> space_char c \<or> c = CHR '','' \<or> c = CHR 0x27 \<or> c = CHR ''-''
          \<or> c = CHR ''.''),
     dn_pattern ''/OU='' ''unit''
       (\<lambda>c. word_char c \<or> space_char c \<or> c = CHR '','' \<or> c = CHR ''-'' \<or> c = CHR ''.''),
     dn_pattern ''/CN='' ''common_name''
       (\<lambda>c. word_char c \<or> space_char c \<or> c = CHR 0x27 \<or> c = CHR ''-'' \<or> c = CHR ''.'')]"

definition public_key_algorithm_re :: re where
  "public_key_algorithm_re =
     Seq (Star any_char)
       (Seq (Lit ''Public Key Algorithm: '') (Named ''public_key_algorithm'' (Star any_char)))"

definition length_re :: re where
  "length_re =
     Seq (Star any_char)
       (Seq (Lit ''Public-Key: ('')
          (Seq (Named ''length'' (Plus digit_char)) (Seq (Star any_char) (Lit '')''))))"

definition signature_algorithm_re :: re where
  "signature_algorithm_re =
     Seq (Star any_char)
       (Seq (Lit ''Signature Algorithm: '') (Named ''signature_algorithm'' (Star any_char)))"

definition ssl_text_regexs :: "re list" where
  "ssl_text_regexs = [public_key_algorithm_re, length_re, signature_algorithm_re]"

definition dns_char :: "char \<Rightarrow> bool" where
  "dns_char c = (word_char c \<or> space_char c \<or> c = CHR ''-'' \<or> c = CHR ''.'')"

definition ssl_dns_regex :: re where
  "ssl_dns_regex = Seq (Lit ''DNS:'') (Plus dns_char)"

section \<open>Collaborators\<close>

text \<open>
  What the module calls and does not define. \<open>open_file\<close> is \<^verbatim>\<open>open(filename, 'r')\<close>
  followed by \<^verbatim>\<open>close()\<close>: \<open>None\<close> when it succeeds, the exception otherwise.
  \<open>getmtime\<close> is \<^verbatim>\<open>int(os.path.getmtime(filename))\<close>. \<open>subp_call\<close> is
  \<^verbatim>\<open>subp.call(command, check=False)\<close>: the output lines and the error lines, or the
  exception it raises. \<open>strptime_epoch\<close> is
  \<^verbatim>\<open>int(datetime.datetime.strptime(value, '%b %d %H:%M:%S %Y %Z').strftime('%s'))\<close>:
  \<open>None\<close> when the text does not parse, which raises ValueError.
  Logging and timing return nothing and decide nothing; they are left out.
\<close>

record env =
  open_file :: "string \<Rightarrow> exn option"
  getmtime :: "string \<Rightarrow> exn + int"
  subp_call :: "string \<Rightarrow> exn + (string list \<times> string list)"
  strptime_epoch :: "string \<Rightarrow> int option"

text \<open>
  A computation returns its outcome and the commands it gave to the command runner,
  in order.
\<close>

type_synonym 'a run = "(exn + 'a) \<times> string list"

definition subp_run :: "env \<Rightarrow> string \<Rightarrow> string list run" where
  "subp_run env cmd =
     (case subp_call env cmd of
        Inl e \<Rightarrow> (Inl e, [cmd])
      | Inr (out, err) \<Rightarrow> (Inr out, [cmd]))"

definition openssl_cmd :: "string \<Rightarrow> string \<Rightarrow> string" where
  "openssl_cmd filename mode = ''openssl x509 -in '' @ filename @ '' -noout -'' @ mode"

definition then_do :: "'a run \<Rightarrow> ('a \<Rightarrow> 'b run) \<Rightarrow> 'b run" where
  "then_do m f =
     (case m of
        (Inl e, log) \<Rightarrow> (Inl e, log)
      | (Inr a, log) \<Rightarrow> (case f a of (r, log') \<Rightarrow> (r, log @ log')))"

section \<open>Field extractors\<close>

definition date_keys :: "string dict" where
  "date_keys = [(''notBefore'', ''start''), (''notAfter'', ''end'')]"

definition dates_line :: "env \<Rightarrow> int dict \<Rightarrow> string \<Rightarrow> exn + int dict" where
  "dates_line env results line =
     (if line = [] then Inr results
      else (case py_split (CHR ''='') [] line of
              [key, value] \<Rightarrow>
                (case map_of date_keys key of
                   None \<Rightarrow> Inr results
                 | Some k \<Rightarrow>
                     (case strptime_epoch env value of
                        None \<Rightarrow> Inl ValueError
                      | Some t \<Rightarrow> Inr (AList.update k t results)))
            | _ \<Rightarrow> Inl ValueError))"

definition dates_lines :: "env \<Rightarrow> string list \<Rightarrow> exn + int dict option" where
  "dates_lines env out =
     (case foldE (dates_line env) out [] of Inl e \<Rightarrow> Inl e | Inr d \<Rightarrow> Inr (or_none d))"

definition certificate_dates :: "env \<Rightarrow> string \<Rightarrow> int dict option run" where
  "certificate_dates env filename =
     (case subp_run env (openssl_cmd filename ''dates'') of
        (Inl e, log) \<Rightarrow> (Inl e, log)
      | (Inr out, log) \<Rightarrow> (dates_lines env out, log))"

definition dn_regex :: "string \<Rightarrow> re \<Rightarrow> string dict \<Rightarrow> string dict" where
  "dn_regex line regex results =
     (case re_match regex line of None \<Rightarrow> results | Some gd \<Rightarrow> dict_update results gd)"

definition dn_line :: "string \<Rightarrow> string dict \<Rightarrow> string dict" where
  "dn_line line results = (if line = [] then results else fold (dn_regex line) ssl_regexs results)"

definition dn_lines :: "string list \<Rightarrow> string dict option" where
  "dn_lines out = or_none (fold dn_line out [])"

definition certificate_subject :: "env \<Rightarrow> string \<Rightarrow> string dict option run" where
  "certificate_subject env filename =
     (case subp_run env (openssl_cmd filename ''subject'') of
        (Inl e, log) \<Rightarrow> (Inl e, log)
      | (Inr out, log) \<Rightarrow> (Inr (dn_lines out), log))"

definition certificate_issuer :: "env \<Rightarrow> string \<Rightarrow> string dict option run" where
  "certificate_issuer env filename =
     (case subp_run env (openssl_cmd filename ''issuer'') of
        (Inl e, log) \<Rightarrow> (Inl e, log)
      | (Inr out, log) \<Rightarrow> (Inr (dn_lines out), log))"

definition purpose_line :: "string \<Rightarrow> string dict \<Rightarrow> string dict" where
  "purpose_line line results =
     (if line = [] then results
      else (case py_split (CHR '' '') '': '' line of
              [key, value] \<Rightarrow> AList.update key value results
            | _ \<Rightarrow> results))"

definition purpose_lines :: "string list \<Rightarrow> string dict option" where
  "purpose_lines out = or_none (fold purpose_line out [])"

definition certificate_purpose :: "env \<Rightarrow> string \<Rightarrow> string dict option run" where
  "certificate_purpose env filename =
     (case subp_run env (openssl_cmd filename ''purpose'') of
        (Inl e, log) \<Rightarrow> (Inl e, log)
      | (Inr out, log) \<Rightarrow> (Inr (purpose_lines out), log))"

definition ocsp_lines :: "string list \<Rightarrow> exn + string option" where
  "ocsp_lines out =
     (case index_at out 0 of
        Inl e \<Rightarrow> Inl e
      | Inr first \<Rightarrow> Inr (if first \<noteq> [] then Some first else None))"

definition certificate_ocsp_uri :: "env \<Rightarrow> string \<Rightarrow> string option run" where
  "certificate_ocsp_uri env filename =
     (case subp_run env (openssl_cmd filename ''ocsp_uri'') of
        (Inl e, log) \<Rightarrow> (Inl e, log)
      | (Inr out, log) \<Rightarrow> (ocsp_lines out, log))"

section \<open>Full-text extractor\<close>

text \<open>
  The body of the inner loop of \<^verbatim>\<open>certificate_full\<close>, for one line and one pattern:
  a match stores its groups and goes on to the next pattern; no match runs the DNS
  check on the line.
\<close>

definition dns_names :: "string list \<Rightarrow> exn + string list" where
  "dns_names dns_matches = mapE (\<lambda>x. index_at (py_split (CHR '':'') [] x) 1) dns_matches"

definition full_regex :: "string \<Rightarrow> pyval dict \<Rightarrow> re \<Rightarrow> exn + pyval dict" where
  "full_regex line results regex =
     (case re_match regex line of
        Some gd \<Rightarrow> Inr (dict_update results (map (\<lambda>(k, v). (k, VStr v)) gd))
      | None \<Rightarrow>
          (let dns_matches = findall ssl_dns_regex line
           in if dns_matches \<noteq> []
              then (case dns_names dns_matches of
                      Inl e \<Rightarrow> Inl e
                    | Inr ns \<Rightarrow> Inr (AList.update ''names'' (VList ns) results))
              else Inr results))"

definition full_line :: "pyval dict \<Rightarrow> string \<Rightarrow> exn + pyval dict" where
  "full_line results line = foldE (full_regex line) ssl_text_regexs results"

definition full_lines :: "string list \<Rightarrow> exn + pyval dict option" where
  "full_lines out =
     (case foldE full_line out [] of Inl e \<Rightarrow> Inl e | Inr d \<Rightarrow> Inr (or_none d))"

definition certificate_full :: "env \<Rightarrow> string \<Rightarrow> pyval dict option run" where
  "certificate_full env filename =
     (case subp_run env (openssl_cmd filename ''text'') of
        (Inl e, log) \<Rightarrow> (Inl e, log)
      | (Inr out, log) \<Rightarrow> (full_lines out, log))"

section \<open>Analysis orchestrator\<close>

definition opt_val :: "('a \<Rightarrow> pyval) \<Rightarrow> 'a option \<Rightarrow> pyval" where
  "opt_val f x = (case x of None \<Rightarrow> VNone | Some a \<Rightarrow> f a)"

text \<open>\<^verbatim>\<open>int(x)\<close> on a value of the result dictionary.\<close>

fun int_of :: "pyval \<Rightarrow> exn + int" where
  "int_of (VInt n) = Inr n"
| "int_of (VStr s) = py_int s"
| "int_of v = Inl TypeError"

text \<open>\<^verbatim>\<open>if 'length' in results: results['length'] = int(results['length'])\<close>\<close>

definition coerce_length :: "pyval dict \<Rightarrow> exn + pyval dict" where
  "coerce_length results =
     (case map_of results ''length'' of
        None \<Rightarrow> Inr results
      | Some v \<Rightarrow>
          (case int_of v of
             Inl e \<Rightarrow> Inl e
           | Inr n \<Rightarrow> Inr (AList.update ''length'' (VInt n) results)))"

text \<open>
  \<^verbatim>\<open>results['subject']['common_name']\<close>: the subject is stored as \<^verbatim>\<open>None\<close> or as a
  dictionary of strings; subscripting \<^verbatim>\<open>None\<close> raises TypeError, a missing key KeyError.
\<close>

definition subject_common_name :: "pyval dict \<Rightarrow> exn + string" where
  "subject_common_name results =
     (case map_of results ''subject'' of
        None \<Rightarrow> Inl KeyError
      | Some (VStrDict d) \<Rightarrow>
          (case map_of d ''common_name'' of None \<Rightarrow> Inl KeyError | Some cn \<Rightarrow> Inr cn)
      | Some v \<Rightarrow> Inl TypeError)"

text \<open>
  The reconciliation of the names list with the subject's common name:
  \<^verbatim>\<open>if results.get('names'):\<close> appends the common name when it is not in the list,
  \<^verbatim>\<open>else:\<close> stores a new list of one. Only \<^verbatim>\<open>certificate_full\<close> stores
  \<open>names\<close>, always as a list; a truthy value of another type raises TypeError here.
\<close>

definition reconcile_names :: "pyval dict \<Rightarrow> exn + pyval dict" where
  "reconcile_names results =
     (if (case map_of results ''names'' of None \<Rightarrow> False | Some v \<Rightarrow> truthy v)
      then (case subject_common_name results of
              Inl e \<Rightarrow> Inl e
            | Inr cn \<Rightarrow>
                (case map_of results ''names'' of
                   Some (VList ns) \<Rightarrow>
                     (if cn \<notin> set ns
                      then Inr (AList.update ''names'' (VList (ns @ [cn])) results)
                      else Inr results)
                 | _ \<Rightarrow> Inl TypeError))
      else (case subject_common_name results of
              Inl e \<Rightarrow> Inl e
            | Inr cn \<Rightarrow> Inr (AList.update ''names'' (VList [cn]) results)))"

definition assemble ::
  "int \<Rightarrow> int dict option \<Rightarrow> string dict option \<Rightarrow> string dict option \<Rightarrow> string dict option \<Rightarrow>
   string option \<Rightarrow> pyval dict option \<Rightarrow> exn + pyval dict" where
  "assemble modified dates subject issuer purpose ocsp_uri additional_info =
     (let results = [];
          results = AList.update ''modified'' (VInt modified) results;
          results = AList.update ''dates'' (opt_val VIntDict dates) results;
          results = AList.update ''subject'' (opt_val VStrDict subject) results;
          results = AList.update ''issuer'' (opt_val VStrDict issuer) results;
          results = AList.update ''purpose'' (opt_val VStrDict purpose) results;
          results = AList.update ''ocsp_uri'' (opt_val VStr ocsp_uri) results;
          results = (case additional_info of
                       None \<Rightarrow> results
                     | Some info \<Rightarrow> dict_update results info)
      in case coerce_length results of
           Inl e \<Rightarrow> Inl e
         | Inr results \<Rightarrow> reconcile_names results)"

text \<open>The body of the second \<^verbatim>\<open>try\<close> block.\<close>

definition analysis_body :: "env \<Rightarrow> string \<Rightarrow> pyval dict run" where
  "analysis_body env filename =
     then_do (getmtime env filename, []) (\<lambda>modified.
     then_do (certificate_dates env filename) (\<lambda>dates.
     then_do (certificate_subject env filename) (\<lambda>subject.
     then_do (certificate_issuer env filename) (\<lambda>issuer.
     then_do (certificate_purpose env filename) (\<lambda>purpose.
     then_do (certificate_ocsp_uri env filename) (\<lambda>ocsp_uri.
     then_do (certificate_full env filename) (\<lambda>additional_info.
       (assemble modified dates subject issuer purpose ocsp_uri additional_info, []))))))))"

text \<open>
  \<open>Inl e\<close>: the exception \<open>e\<close> reaches the caller. \<open>Inr None\<close>: the function returns
  \<^verbatim>\<open>None\<close>. \<open>Inr (Some results)\<close>: it returns the dictionary. The first \<^verbatim>\<open>try\<close>
  catches IOError only; the second catches every \<^verbatim>\<open>Exception\<close>.
\<close>

definition ssl_analysis :: "env \<Rightarrow> string \<Rightarrow> pyval dict option run" where
  "ssl_analysis env filename =
     (case open_file env filename of
        Some e \<Rightarrow> (if e = IOError then (Inr None, []) else (Inl e, []))
      | None \<Rightarrow>
          (case analysis_body env filename of
             (Inl e, log) \<Rightarrow> (Inr None, log)
           | (Inr results, log) \<Rightarrow> (Inr (Some results), log)))"

section \<open>Example collaborators\<close>

text \<open>
  A readable certificate \<^verbatim>\<open>c.pem\<close> and the output of the six tool invocations on it,
  each ending with the empty line that follows the last newline.
\<close>

definition example_env :: env where
  "example_env =
     \<lparr> open_file = (\<lambda>f. None),
       getmtime = (\<lambda>f. Inr 1500000000),
       subp_call = (\<lambda>cmd.
         if cmd = openssl_cmd ''c.pem'' ''dates''
         then Inr ([''notBefore=Jan  1 00:00:00 2020 GMT'',
                    ''notAfter=Jan  1 00:00:00 2030 GMT'', ''''], [''''])
         else if cmd = openssl_cmd ''c.pem'' ''subject''
         then Inr ([''subject= /C=US/ST=California/O=Example, Inc./CN=example.com'', ''''],
                   [''''])
         else if cmd = openssl_cmd ''c.pem'' ''issuer''
         then Inr ([''issuer= /C=US/O=CA'', ''''], [''''])
         else if cmd = openssl_cmd ''c.pem'' ''purpose''
         then Inr ([''Certificate purposes:'', ''SSL client : Yes'', ''Any Purpose'', ''''],
                   [''''])
         else if cmd = openssl_cmd ''c.pem'' ''ocsp_uri''
         then Inr ([''http://ocsp.example.com'', ''''], [''''])
         else if cmd = openssl_cmd ''c.pem'' ''text''
         then Inr ([''Public-Key: (2048 bit)'', ''X509v3 Subject Alternative Name:'',
                    ''DNS:example.com, DNS:www.example.com'', ''''], [''''])
         else Inr ([''''], [''''])),
       strptime_epoch = (\<lambda>v.
         if v = ''Jan  1 00:00:00 2020 GMT'' then Some 1577836800
         else if v = ''Jan  1 00:00:00 2030 GMT'' then Some 1893456000
         else None) \<rparr>"

text \<open>The same collaborators, with another output for one command.\<close>

definition with_output :: "env \<Rightarrow> string \<Rightarrow> string list \<Rightarrow> env" where
  "with_output env cmd out =
     env\<lparr>subp_call := (\<lambda>c. if c = cmd then Inr (out, ['''']) else subp_call env c)\<rparr>"

text \<open>What the analysis of the example returns.\<close>

definition example_result :: "pyval dict" where
  "example_result =
     [(''modified'', VInt 1500000000),
      (''dates'', VIntDict [(''start'', 1577836800), (''end'', 1893456000)]),
      (''subject'',
       VStrDict
        [(''country'', ''US''), (''state'', ''California''),
         (''organization'', ''Example, Inc.''), (''common_name'', ''example.com'')]),
      (''issuer'', VStrDict [(''country'', ''US''), (''organization'', ''CA'')]),
      (''purpose'', VStrDict [(''SSL client'', ''Yes'')]),
      (''ocsp_uri'', VStr ''http://ocsp.example.com''),
      (''length'', VInt 2048),
      (''names'', VList [''example.com'', ''www.example.com''])]"

section \<open>Notions used to state the properties\<close>

text \<open>
  The text after the first colon of a DNS token; whether the inner loop of
  \<^verbatim>\<open>certificate_full\<close> reaches the DNS check on a line (some pattern fails to match
  it) and finds a token there; the names such a line gives; the digits the
  Public-Key pattern captures on a line; and what \<^verbatim>\<open>certificate_full\<close> can hold:
  distinct keys, \<open>names\<close> a non-empty list, \<open>length\<close> a non-empty string of digits, the
  two algorithm names strings.
\<close>

definition after_colon :: "string \<Rightarrow> string" where
  "after_colon x = tl (dropWhile (\<lambda>c. c \<noteq> CHR '':'') x)"

definition dns_checked :: "string \<Rightarrow> bool" where
  "dns_checked line = list_ex (\<lambda>regex. re_match regex line = None) ssl_text_regexs"

definition san_line :: "string \<Rightarrow> bool" where
  "san_line line = (dns_checked line \<and> findall ssl_dns_regex line \<noteq> [])"

definition line_names :: "string \<Rightarrow> string list" where
  "line_names line = map after_colon (findall ssl_dns_regex line)"

definition line_length :: "string \<Rightarrow> string option" where
  "line_length line =
     (case re_match length_re line of None \<Rightarrow> None | Some gd \<Rightarrow> map_of gd ''length'')"

definition entry_ok :: "string \<times> pyval \<Rightarrow> bool" where
  "entry_ok e =
     (case e of (k, v) \<Rightarrow>
        (k = ''names'' \<and> (case v of VList ns \<Rightarrow> ns \<noteq> [] | _ \<Rightarrow> False)) \<or>
        (k = ''length'' \<and>
           (case v of VStr ds \<Rightarrow> ds \<noteq> [] \<and> list_all digit_char ds | _ \<Rightarrow> False)) \<or>
        ((k = ''public_key_algorithm'' \<or> k = ''signature_algorithm'') \<and>
           (case v of VStr s \<Rightarrow> True | _ \<Rightarrow> False)))"

definition info_ok :: "pyval dict \<Rightarrow> bool" where
  "info_ok d = (distinct (map fst d) \<and> list_all entry_ok d)"

text \<open>
  The decimal value of a string of digits, from the character codes; and the entry
  that a run of \<^verbatim>\<open>ssl_analysis\<close> returns under a key, when it returns a dictionary.
\<close>

definition decimal :: "string \<Rightarrow> int" where
  "decimal ds = foldl (\<lambda>n c. 10 * n + (of_char c - 48)) 0 ds"

definition result_entry :: "pyval dict option run \<Rightarrow> string \<Rightarrow> pyval option" where
  "result_entry r k = (case fst r of Inr (Some res) \<Rightarrow> map_of res k | _ \<Rightarrow> None)"

section \<open>The matcher on the patterns of the catalog\<close>

lemma splits_last: "\<exists>ys. splits p s = ys @ [s]"
  by (cases s) auto

lemma splits_mem: "r \<in> set (splits p s) \<Longrightarrow> \<exists>w. s = w @ r \<and> list_all p w"
proof (induction s)
  case Nil
  then show ?case by simp
next
  case (Cons x xs)
  show ?case
  proof (cases "p x \<and> r \<in> set (splits p xs)")
    case True
    then obtain w where "xs = w @ r" "list_all p w" using Cons.IH by blast
    then have "x # xs = (x # w) @ r \<and> list_all p (x # w)" using True by simp
    then show ?thesis by blast
  next
    case False
    then have "r = x # xs" using Cons.prems by (auto split: if_splits)
    then show ?thesis by (intro exI[of _ "[]"]) simp
  qed
qed

lemma splits_butlast_mem:
  "r \<in> set (butlast (splits p s)) \<Longrightarrow> \<exists>w. s = w @ r \<and> w \<noteq> [] \<and> list_all p w"
proof (cases s)
  case Nil
  assume "r \<in> set (butlast (splits p s))"
  then show ?thesis using Nil by simp
next
  case (Cons x xs)
  assume a: "r \<in> set (butlast (splits p s))"
  then have px: "p x" and "r \<in> set (splits p xs)"
    using Cons by (auto split: if_splits simp: butlast_append)
  then obtain w where "xs = w @ r" "list_all p w" using splits_mem by blast
  then have "s = (x # w) @ r \<and> x # w \<noteq> [] \<and> list_all p (x # w)" using px Cons by simp
  then show ?thesis by blast
qed

lemma re_match_Some: "re_match r s = Some gd \<Longrightarrow> \<exists>rest. (rest, gd) \<in> set (runs r s [])"
  by (auto simp: re_match_def split: list.splits)

lemma runs_algorithm:
  "(rest, gd) \<in> set (runs (Seq (Star p) (Seq (Lit l) (Named g (Star q)))) s []) \<Longrightarrow>
     \<exists>v. gd = [(g, v)]"
  by auto

lemma runs_length:
  assumes "(rest, gd) \<in> set (runs length_re s [])"
  shows "\<exists>ds. gd = [(''length'', ds)] \<and> ds \<noteq> [] \<and> list_all digit_char ds"
proof -
  from assms obtain s1 r1 where
    r1: "r1 \<in> set (butlast (splits digit_char s1))"
    and gd: "gd = [(''length'', take (length s1 - length r1) s1)]"
    unfolding length_re_def by (auto split: if_splits)
  from splits_butlast_mem[OF r1] obtain w where "s1 = w @ r1" "w \<noteq> []" "list_all digit_char w"
    by blast
  then show ?thesis using gd by simp
qed

lemma runs_dn:
  "(rest, gd) \<in> set (runs (dn_pattern tag name cls) s []) \<Longrightarrow> \<exists>v. gd = [(name, v)]"
  unfolding dn_pattern_def by auto

lemma match_len_dns:
  assumes "match_len ssl_dns_regex s = Some n"
  shows "\<exists>w. take n s = ''DNS:'' @ w \<and> w \<noteq> [] \<and> list_all dns_char w \<and> 0 < n"
proof -
  define k where "k = Suc (Suc (Suc (Suc 0)))"
  from assms obtain r bs where
    pre: "take k s = ''DNS:''"
    and bl: "butlast (splits dns_char (drop k s)) = r # bs"
    and n: "n = length s - length r"
    unfolding match_len_def ssl_dns_regex_def k_def
    by (auto split: list.splits if_splits simp: map_eq_Cons_conv)
  have "r \<in> set (butlast (splits dns_char (drop k s)))" using bl by simp
  from splits_butlast_mem[OF this] obtain w where
    w: "drop k s = w @ r" "w \<noteq> []" "list_all dns_char w" by blast
  have "s = take k s @ drop k s" by simp
  then have s: "s = ''DNS:'' @ w @ r" using pre w(1) by metis
  have ls: "length s = length (''DNS:'' @ w) + length r" by (subst s) simp
  have n': "n = length (''DNS:'' @ w)" using n ls by simp
  have "take n s = ''DNS:'' @ w" by (subst s) (simp add: n')
  moreover have "0 < n" using n' by simp
  ultimately show ?thesis using w by blast
qed

section \<open>Dictionaries and DNS tokens\<close>

lemma dict_update_single: "dict_update d [(g, v)] = AList.update g v d"
  by (simp add: dict_update_def)

lemma map_of_dict_update:
  "distinct (map fst other) \<Longrightarrow> map_of (dict_update d other) = map_of d ++ map_of other"
proof (induction other arbitrary: d)
  case Nil
  then show ?case by (simp add: dict_update_def)
next
  case (Cons p other)
  obtain k v where p: "p = (k, v)" by (cases p)
  have k: "k \<notin> fst ` set other" using Cons.prems p by simp
  have "dict_update d (p # other) = dict_update (AList.update k v d) other"
    by (simp add: dict_update_def p)
  then have "map_of (dict_update d (p # other)) = (map_of d)(k \<mapsto> v) ++ map_of other"
    using Cons.IH Cons.prems by (simp add: update_conv')
  also have "\<dots> = map_of d ++ map_of (p # other)"
  proof -
    have "map_of other k = None" using k by (simp add: map_of_eq_None_iff)
    then show ?thesis by (auto simp: p map_add_def fun_eq_iff split: option.splits)
  qed
  finally show ?case .
qed

lemma py_split_no_sep: "c \<notin> set s \<Longrightarrow> py_split c [] s = [s]"
  by (induction s) auto

lemma dns_char_not_colon: "dns_char c \<Longrightarrow> c \<noteq> CHR '':''"
  by (auto simp: dns_char_def word_char_def space_char_def)

lemma dns_token_name:
  assumes "list_all dns_char w"
  shows "index_at (py_split (CHR '':'') [] (''DNS:'' @ w)) 1 = Inr w"
    and "after_colon (''DNS:'' @ w) = w"
proof -
  have "CHR '':'' \<notin> set w" using assms dns_char_not_colon by (auto simp: list_all_iff)
  then have "py_split (CHR '':'') [] w = [w]" by (rule py_split_no_sep)
  then show "index_at (py_split (CHR '':'') [] (''DNS:'' @ w)) 1 = Inr w"
    by (simp add: index_at_def)
  show "after_colon (''DNS:'' @ w) = w" by (simp add: after_colon_def)
qed

lemma findall_from_mem:
  "x \<in> set (findall_from r k s) \<Longrightarrow> \<exists>s' n. match_len r s' = Some n \<and> x = take n s'"
proof (induction r k s rule: findall_from.induct)
  case (1 r skip)
  show ?case using "1.prems"
    by (cases "skip = 0"; cases "match_len r []") auto
next
  case (2 r skip y ys)
  show ?case
  proof (cases "0 < skip")
    case True
    with 2 show ?thesis by simp
  next
    case False
    show ?thesis
    proof (cases "match_len r (y # ys)")
      case None
      with 2 False show ?thesis by simp
    next
      case (Some n)
      from "2.prems" False Some
      have "x = take n (y # ys) \<or> x \<in> set (findall_from r (n - 1) ys)" by simp
      then show ?thesis
      proof
        assume "x = take n (y # ys)"
        then show ?thesis using Some by blast
      next
        assume "x \<in> set (findall_from r (n - 1) ys)"
        then show ?thesis using "2.IH"(3)[OF _ Some] False by simp
      qed
    qed
  qed
qed

lemma findall_dns:
  assumes "x \<in> set (findall ssl_dns_regex line)"
  shows "\<exists>w. x = ''DNS:'' @ w \<and> w \<noteq> [] \<and> list_all dns_char w"
proof -
  from assms obtain s' n where "match_len ssl_dns_regex s' = Some n" "x = take n s'"
    unfolding findall_def using findall_from_mem by blast
  then show ?thesis using match_len_dns by blast
qed

lemma mapE_Inr: "(\<And>x. x \<in> set xs \<Longrightarrow> f x = Inr (g x)) \<Longrightarrow> mapE f xs = Inr (map g xs)"
  by (induction xs) auto

lemma dns_names_findall:
  "dns_names (findall ssl_dns_regex line) = Inr (map after_colon (findall ssl_dns_regex line))"
  unfolding dns_names_def
proof (rule mapE_Inr)
  fix x assume "x \<in> set (findall ssl_dns_regex line)"
  then obtain w where "x = ''DNS:'' @ w" "list_all dns_char w"
    using findall_dns by blast
  then show "index_at (py_split (CHR '':'') [] x) 1 = Inr (after_colon x)"
    by (simp only: dns_token_name)
qed

section \<open>The loop of the full-text extractor\<close>

lemma set_update_cases:
  "e \<in> set (AList.update k v al) \<Longrightarrow> e = (k, v) \<or> e \<in> set al"
  by (induction al) (auto split: if_splits)

lemma info_ok_update: "info_ok d \<Longrightarrow> entry_ok (k, v) \<Longrightarrow> info_ok (AList.update k v d)"
  unfolding info_ok_def list_all_iff
  using set_update_cases[of _ k v d] by (auto simp: distinct_update)

lemma text_regex_match:
  assumes "regex \<in> set ssl_text_regexs" and "re_match regex line = Some gd"
  shows "\<exists>k v. gd = [(k, v)] \<and> k \<noteq> ''names'' \<and> entry_ok (k, VStr v)"
proof -
  from assms(2) obtain rest where mem: "(rest, gd) \<in> set (runs regex line [])"
    using re_match_Some by blast
  from assms(1) consider "regex = public_key_algorithm_re" | "regex = length_re"
    | "regex = signature_algorithm_re"
    by (auto simp: ssl_text_regexs_def)
  then show ?thesis
  proof cases
    case 1
    then obtain v where "gd = [(''public_key_algorithm'', v)]"
      using mem runs_algorithm unfolding public_key_algorithm_re_def by blast
    then show ?thesis by (simp add: entry_ok_def)
  next
    case 2
    then obtain ds where "gd = [(''length'', ds)]" "ds \<noteq> []" "list_all digit_char ds"
      using mem runs_length by blast
    then show ?thesis by (simp add: entry_ok_def)
  next
    case 3
    then obtain v where "gd = [(''signature_algorithm'', v)]"
      using mem runs_algorithm unfolding signature_algorithm_re_def by blast
    then show ?thesis by (simp add: entry_ok_def)
  qed
qed

lemma line_names_nonempty: "findall ssl_dns_regex line \<noteq> [] \<Longrightarrow> line_names line \<noteq> []"
  by (simp add: line_names_def)

lemma full_regex_step:
  assumes "regex \<in> set ssl_text_regexs" and "info_ok res"
  shows "\<exists>res'. full_regex line res regex = Inr res' \<and> info_ok res' \<and>
           map_of res' ''names'' =
             (if re_match regex line = None \<and> findall ssl_dns_regex line \<noteq> []
              then Some (VList (line_names line)) else map_of res ''names'') \<and>
           map_of res' ''length'' =
             (case re_match regex line of
                None \<Rightarrow> map_of res ''length''
              | Some gd \<Rightarrow>
                  (case map_of gd ''length'' of
                     None \<Rightarrow> map_of res ''length''
                   | Some ds \<Rightarrow> Some (VStr ds)))"
proof (cases "re_match regex line")
  case None
  show ?thesis
  proof (cases "findall ssl_dns_regex line = []")
    case True
    then show ?thesis using None assms(2) by (simp add: full_regex_def)
  next
    case False
    have "entry_ok (''names'', VList (line_names line))"
      using False by (simp add: entry_ok_def line_names_def)
    then show ?thesis using None False assms(2)
      by (simp add: full_regex_def dns_names_findall line_names_def info_ok_update update_conv')
  qed
next
  case (Some gd)
  from text_regex_match[OF assms(1) Some] obtain k v where
    gd: "gd = [(k, v)]" "k \<noteq> ''names''" "entry_ok (k, VStr v)" by blast
  then show ?thesis using Some assms(2)
    by (simp add: full_regex_def dict_update_single info_ok_update update_conv')
qed

lemma line_length_other:
  assumes "re_match (Seq (Star p) (Seq (Lit l) (Named g (Star q)))) line = Some gd"
    and "g \<noteq> ''length''"
  shows "map_of gd ''length'' = None"
proof -
  from assms(1) obtain rest v where "gd = [(g, v)]"
    using re_match_Some runs_algorithm by blast
  then show ?thesis using assms(2) by simp
qed

lemma line_length_digits:
  "line_length line = Some ds \<Longrightarrow> ds \<noteq> [] \<and> list_all digit_char ds"
proof -
  assume a: "line_length line = Some ds"
  then obtain gd where gd: "re_match length_re line = Some gd" "map_of gd ''length'' = Some ds"
    by (auto simp: line_length_def split: option.splits)
  then obtain rest where "(rest, gd) \<in> set (runs length_re line [])"
    using re_match_Some by blast
  then obtain ds' where "gd = [(''length'', ds')]" "ds' \<noteq> []" "list_all digit_char ds'"
    using runs_length by blast
  then show ?thesis using gd(2) by simp
qed

lemma full_line_step:
  assumes "info_ok res"
  shows "\<exists>res'. full_line res line = Inr res' \<and> info_ok res' \<and>
           map_of res' ''names'' =
             (if san_line line then Some (VList (line_names line)) else map_of res ''names'') \<and>
           map_of res' ''length'' =
             (case line_length line of
                None \<Rightarrow> map_of res ''length''
              | Some ds \<Rightarrow> Some (VStr ds))"
proof -
  have m: "public_key_algorithm_re \<in> set ssl_text_regexs" "length_re \<in> set ssl_text_regexs"
    "signature_algorithm_re \<in> set ssl_text_regexs"
    by (simp_all add: ssl_text_regexs_def)
  from full_regex_step[OF m(1) assms, of line] obtain r1 where
    r1: "full_regex line res public_key_algorithm_re = Inr r1" "info_ok r1"
      "map_of r1 ''names'' =
         (if re_match public_key_algorithm_re line = None \<and> findall ssl_dns_regex line \<noteq> []
          then Some (VList (line_names line)) else map_of res ''names'')"
      "map_of r1 ''length'' =
         (case re_match public_key_algorithm_re line of
            None \<Rightarrow> map_of res ''length''
          | Some gd \<Rightarrow>
              (case map_of gd ''length'' of
                 None \<Rightarrow> map_of res ''length''
               | Some ds \<Rightarrow> Some (VStr ds)))" by blast
  from full_regex_step[OF m(2) r1(2), of line] obtain r2 where
    r2: "full_regex line r1 length_re = Inr r2" "info_ok r2"
      "map_of r2 ''names'' =
         (if re_match length_re line = None \<and> findall ssl_dns_regex line \<noteq> []
          then Some (VList (line_names line)) else map_of r1 ''names'')"
      "map_of r2 ''length'' =
         (case re_match length_re line of
            None \<Rightarrow> map_of r1 ''length''
          | Some gd \<Rightarrow>
              (case map_of gd ''length'' of
                 None \<Rightarrow> map_of r1 ''length''
               | Some ds \<Rightarrow> Some (VStr ds)))" by blast
  from full_regex_step[OF m(3) r2(2), of line] obtain r3 where
    r3: "full_regex line r2 signature_algorithm_re = Inr r3" "info_ok r3"
      "map_of r3 ''names'' =
         (if re_match signature_algorithm_re line = None \<and> findall ssl_dns_regex line \<noteq> []
          then Some (VList (line_names line)) else map_of r2 ''names'')"
      "map_of r3 ''length'' =
         (case re_match signature_algorithm_re line of
            None \<Rightarrow> map_of r2 ''length''
          | Some gd \<Rightarrow>
              (case map_of gd ''length'' of
                 None \<Rightarrow> map_of r2 ''length''
               | Some ds \<Rightarrow> Some (VStr ds)))" by blast
  have l1: "map_of r1 ''length'' = map_of res ''length''"
    using r1(4) line_length_other[of any_char "''Public Key Algorithm: ''"
        "''public_key_algorithm''" any_char line]
    by (auto simp: public_key_algorithm_re_def split: option.splits)
  have l3: "map_of r3 ''length'' = map_of r2 ''length''"
    using r3(4) line_length_other[of any_char "''Signature Algorithm: ''"
        "''signature_algorithm''" any_char line]
    by (auto simp: signature_algorithm_re_def split: option.splits)
  have "full_line res line = Inr r3"
    using r1(1) r2(1) r3(1) by (simp add: full_line_def ssl_text_regexs_def)
  moreover have "map_of r3 ''names'' =
      (if san_line line then Some (VList (line_names line)) else map_of res ''names'')"
    using r1(3) r2(3) r3(3) by (auto simp: san_line_def dns_checked_def ssl_text_regexs_def)
  moreover have "map_of r3 ''length'' =
      (case line_length line of None \<Rightarrow> map_of res ''length'' | Some ds \<Rightarrow> Some (VStr ds))"
    using l1 l3 r2(4) by (auto simp: line_length_def split: option.splits)
  ultimately show ?thesis using r3(2) by blast
qed

lemma full_fold:
  assumes "info_ok res"
  shows "\<exists>res'. foldE full_line out res = Inr res' \<and> info_ok res' \<and>
           map_of res' ''names'' =
             (case filter san_line out of
                [] \<Rightarrow> map_of res ''names''
              | l # ls \<Rightarrow> Some (VList (line_names (last (l # ls))))) \<and>
           map_of res' ''length'' =
             (case filter (\<lambda>l. line_length l \<noteq> None) out of
                [] \<Rightarrow> map_of res ''length''
              | l # ls \<Rightarrow> map_option VStr (line_length (last (l # ls))))"
  using assms
proof (induction out arbitrary: res)
  case Nil
  then show ?case by simp
next
  case (Cons line out)
  from full_line_step[OF Cons.prems, of line] obtain r1 where
    r1: "full_line res line = Inr r1" "info_ok r1"
      "map_of r1 ''names'' =
         (if san_line line then Some (VList (line_names line)) else map_of res ''names'')"
      "map_of r1 ''length'' =
         (case line_length line of
            None \<Rightarrow> map_of res ''length''
          | Some ds \<Rightarrow> Some (VStr ds))"
    by blast
  from Cons.IH[OF r1(2)] obtain r2 where
    r2: "foldE full_line out r1 = Inr r2" "info_ok r2"
      "map_of r2 ''names'' =
         (case filter san_line out of
            [] \<Rightarrow> map_of r1 ''names''
          | l # ls \<Rightarrow> Some (VList (line_names (last (l # ls)))))"
      "map_of r2 ''length'' =
         (case filter (\<lambda>l. line_length l \<noteq> None) out of
            [] \<Rightarrow> map_of r1 ''length''
          | l # ls \<Rightarrow> map_option VStr (line_length (last (l # ls))))" by blast
  have "foldE full_line (line # out) res = Inr r2" using r1(1) r2(1) by simp
  moreover have "map_of r2 ''names'' =
      (case filter san_line (line # out) of
         [] \<Rightarrow> map_of res ''names''
       | l # ls \<Rightarrow> Some (VList (line_names (last (l # ls)))))"
    using r1(3) r2(3) by (auto split: list.splits)
  moreover have "map_of r2 ''length'' =
      (case filter (\<lambda>l. line_length l \<noteq> None) (line # out) of
         [] \<Rightarrow> map_of res ''length''
       | l # ls \<Rightarrow> map_option VStr (line_length (last (l # ls))))"
    using r1(4) r2(4) by (auto split: list.splits)
  ultimately show ?case using r2(2) by blast
qed

lemma full_lines_result:
  "\<exists>info. full_lines out = Inr (or_none info) \<and> info_ok info \<and>
     map_of info ''names'' =
       (case filter san_line out of
          [] \<Rightarrow> None
        | l # ls \<Rightarrow> Some (VList (line_names (last (l # ls))))) \<and>
     map_of info ''length'' =
       (case filter (\<lambda>l. line_length l \<noteq> None) out of
          [] \<Rightarrow> None
        | l # ls \<Rightarrow> map_option VStr (line_length (last (l # ls))))"
proof -
  have "info_ok []" by (simp add: info_ok_def)
  from full_fold[OF this, of out] obtain d where
    d: "foldE full_line out [] = Inr d" "info_ok d"
      "map_of d ''names'' =
         (case filter san_line out of
            [] \<Rightarrow> map_of [] ''names''
          | l # ls \<Rightarrow> Some (VList (line_names (last (l # ls)))))"
      "map_of d ''length'' =
         (case filter (\<lambda>l. line_length l \<noteq> None) out of
            [] \<Rightarrow> map_of [] ''length''
          | l # ls \<Rightarrow> map_option VStr (line_length (last (l # ls))))" by blast
  have "full_lines out = Inr (or_none d)" using d(1) by (simp add: full_lines_def)
  then show ?thesis using d(2,3,4) by (intro exI[of _ d]) (simp split: list.splits)
qed

section \<open>Coercion and reconciliation\<close>

lemma digit_char_plain:
  "digit_char c \<Longrightarrow> \<not> space_char c \<and> c \<noteq> CHR ''-'' \<and> c \<noteq> CHR ''+''"
  by (auto simp: digit_char_def space_char_def)

lemma py_strip_digits:
  assumes "ds \<noteq> []" and "list_all digit_char ds"
  shows "py_strip ds = ds"
proof -
  have "digit_char (hd ds)" "digit_char (last ds)"
    using assms by (auto simp: list_all_iff)
  then have "\<not> space_char (hd ds)" "\<not> space_char (hd (rev ds))"
    using digit_char_plain assms(1) by (auto simp: hd_rev)
  then have "dropWhile space_char ds = ds" "dropWhile space_char (rev ds) = rev ds"
    by (simp_all only: dropWhile_eq_self_iff simp_thms)
  then show ?thesis by (simp add: py_strip_def)
qed

lemma py_int_digits:
  assumes "ds \<noteq> []" and "list_all digit_char ds"
  shows "\<exists>n. py_int ds = Inr n"
proof -
  have "digit_char (hd ds)" using assms by (auto simp: list_all_iff)
  then have "hd ds \<noteq> CHR ''-''" "hd ds \<noteq> CHR ''+''" using digit_char_plain by auto
  then show ?thesis
    using assms by (simp add: py_int_def py_strip_digits Let_def)
qed

lemma info_ok_entry: "info_ok d \<Longrightarrow> map_of d k = Some v \<Longrightarrow> entry_ok (k, v)"
  by (auto simp: info_ok_def list_all_iff dest: map_of_SomeD)

lemma info_ok_keys:
  assumes "info_ok d"
    and "k \<notin> {''names'', ''length'', ''public_key_algorithm'', ''signature_algorithm''}"
  shows "map_of d k = None"
proof (cases "map_of d k")
  case None
  then show ?thesis .
next
  case (Some v)
  then have "entry_ok (k, v)" using assms(1) info_ok_entry by blast
  then show ?thesis using assms(2) by (auto simp: entry_ok_def)
qed

lemma info_ok_names:
  assumes "info_ok d"
  shows "map_of d ''names'' = None \<or> (\<exists>ns. map_of d ''names'' = Some (VList ns) \<and> ns \<noteq> [])"
proof (cases "map_of d ''names''")
  case None
  then show ?thesis by simp
next
  case (Some v)
  then have "entry_ok (''names'', v)" using assms info_ok_entry by blast
  then show ?thesis using Some by (cases v) (auto simp: entry_ok_def)
qed

lemma info_ok_length:
  assumes "info_ok d" and "map_of d ''length'' = Some v"
  shows "\<exists>ds. v = VStr ds \<and> ds \<noteq> [] \<and> list_all digit_char ds"
proof -
  have "entry_ok (''length'', v)" using assms info_ok_entry by blast
  then show ?thesis by (cases v) (auto simp: entry_ok_def)
qed

lemma coerce_length_ok:
  assumes "\<And>v. map_of r ''length'' = Some v \<Longrightarrow>
             \<exists>ds. v = VStr ds \<and> ds \<noteq> [] \<and> list_all digit_char ds"
  shows "\<exists>r'. coerce_length r = Inr r' \<and>
           (\<forall>k. k \<noteq> ''length'' \<longrightarrow> map_of r' k = map_of r k) \<and>
           map_of r' ''length'' =
             (case map_of r ''length'' of
                None \<Rightarrow> None
              | Some v \<Rightarrow> (case int_of v of Inl e \<Rightarrow> None | Inr n \<Rightarrow> Some (VInt n)))"
proof (cases "map_of r ''length''")
  case None
  then show ?thesis by (simp add: coerce_length_def)
next
  case (Some v)
  from assms[OF Some] obtain ds where ds: "v = VStr ds" "ds \<noteq> []" "list_all digit_char ds"
    by blast
  then obtain n where "py_int ds = Inr n" using py_int_digits by blast
  then show ?thesis using Some ds(1) by (simp add: coerce_length_def update_conv')
qed

lemma coerce_length_int:
  "coerce_length r = Inr r' \<Longrightarrow> map_of r' ''length'' = Some v \<Longrightarrow> \<exists>n. v = VInt n"
  by (auto simp: coerce_length_def update_conv' split: option.splits sum.splits)

lemma reconcile_names_frame:
  "reconcile_names r = Inr r' \<Longrightarrow> k \<noteq> ''names'' \<Longrightarrow> map_of r' k = map_of r k"
  by (auto simp: reconcile_names_def update_conv'
      split: option.splits sum.splits if_splits pyval.splits)

lemma subject_common_name_Inr:
  "subject_common_name r = Inr cn \<longleftrightarrow>
     (\<exists>sd. map_of r ''subject'' = Some (VStrDict sd) \<and> map_of sd ''common_name'' = Some cn)"
  by (auto simp: subject_common_name_def split: option.splits pyval.splits)

lemma reconcile_names_Inr:
  assumes "reconcile_names r = Inr r'"
  shows "\<exists>cn. subject_common_name r = Inr cn \<and>
           map_of r' ''names'' =
             Some (VList (case map_of r ''names'' of
                            Some (VList ns) \<Rightarrow>
                              (if ns = [] then [cn] else if cn \<in> set ns then ns else ns @ [cn])
                          | _ \<Rightarrow> [cn]))"
  using assms
  by (auto simp: reconcile_names_def update_conv'
      split: option.splits sum.splits if_splits pyval.splits)

lemma reconcile_names_raises:
  "subject_common_name r = Inl e \<Longrightarrow> reconcile_names r = Inl e"
  by (auto simp: reconcile_names_def split: option.splits pyval.splits)

lemma reconcile_names_ok:
  assumes "subject_common_name r = Inr cn"
    and "map_of r ''names'' = None \<or> (\<exists>ns. map_of r ''names'' = Some (VList ns) \<and> ns \<noteq> [])"
  shows "\<exists>r'. reconcile_names r = Inr r'"
  using assms by (auto simp: reconcile_names_def)

section \<open>Assembly\<close>

lemma assemble_eq:
  "assemble m d sub i p ocsp info =
     (case coerce_length
             (dict_update
                [(''modified'', VInt m), (''dates'', opt_val VIntDict d),
                 (''subject'', opt_val VStrDict sub), (''issuer'', opt_val VStrDict i),
                 (''purpose'', opt_val VStrDict p), (''ocsp_uri'', opt_val VStr ocsp)]
                (case info of None \<Rightarrow> [] | Some x \<Rightarrow> x)) of
        Inl e \<Rightarrow> Inl e
      | Inr r \<Rightarrow> reconcile_names r)"
  by (simp add: assemble_def dict_update_def split: option.splits)

lemma or_none_content: "(case or_none I of None \<Rightarrow> [] | Some x \<Rightarrow> x) = I"
  by (simp add: or_none_def)

lemma assemble_coerced:
  assumes "info_ok I"
  shows "\<exists>r. coerce_length
               (dict_update
                  [(''modified'', VInt m), (''dates'', opt_val VIntDict d),
                   (''subject'', opt_val VStrDict sub), (''issuer'', opt_val VStrDict i),
                   (''purpose'', opt_val VStrDict p), (''ocsp_uri'', opt_val VStr ocsp)] I) = Inr r \<and>
             map_of r ''modified'' = Some (VInt m) \<and>
             map_of r ''subject'' = Some (opt_val VStrDict sub) \<and>
             map_of r ''issuer'' = Some (opt_val VStrDict i) \<and>
             map_of r ''purpose'' = Some (opt_val VStrDict p) \<and>
             map_of r ''names'' = map_of I ''names'' \<and>
             map_of r ''length'' =
               (case map_of I ''length'' of
                  None \<Rightarrow> None
                | Some v \<Rightarrow> (case int_of v of Inl e \<Rightarrow> None | Inr n \<Rightarrow> Some (VInt n)))"
proof -
  define base where "base =
    [(''modified'', VInt m), (''dates'', opt_val VIntDict d),
     (''subject'', opt_val VStrDict sub), (''issuer'', opt_val VStrDict i),
     (''purpose'', opt_val VStrDict p), (''ocsp_uri'', opt_val VStr ocsp)]"
  define r1 where "r1 = dict_update base I"
  have dist: "distinct (map fst I)" using assms by (simp add: info_ok_def)
  have m1: "map_of r1 = map_of base ++ map_of I"
    unfolding r1_def by (rule map_of_dict_update[OF dist])
  have none: "map_of I ''modified'' = None" "map_of I ''subject'' = None"
    "map_of I ''issuer'' = None" "map_of I ''purpose'' = None"
    by (rule info_ok_keys[OF assms], simp)+
  have k1: "map_of r1 ''modified'' = Some (VInt m)"
    "map_of r1 ''subject'' = Some (opt_val VStrDict sub)"
    "map_of r1 ''issuer'' = Some (opt_val VStrDict i)"
    "map_of r1 ''purpose'' = Some (opt_val VStrDict p)"
    using none by (simp_all add: m1 map_add_def base_def)
  have k2: "map_of r1 ''names'' = map_of I ''names''" "map_of r1 ''length'' = map_of I ''length''"
    by (simp_all add: m1 map_add_def base_def split: option.splits)
  have "\<And>v. map_of r1 ''length'' = Some v \<Longrightarrow>
          \<exists>ds. v = VStr ds \<and> ds \<noteq> [] \<and> list_all digit_char ds"
    using info_ok_length[OF assms] k2(2) by simp
  from coerce_length_ok[OF this] obtain r where
    r: "coerce_length r1 = Inr r" "\<forall>k. k \<noteq> ''length'' \<longrightarrow> map_of r k = map_of r1 k"
      "map_of r ''length'' =
         (case map_of r1 ''length'' of
            None \<Rightarrow> None
          | Some v \<Rightarrow> (case int_of v of Inl e \<Rightarrow> None | Inr n \<Rightarrow> Some (VInt n)))"
    by blast
  have "map_of r ''modified'' = Some (VInt m)" "map_of r ''subject'' = Some (opt_val VStrDict sub)"
    "map_of r ''issuer'' = Some (opt_val VStrDict i)"
    "map_of r ''purpose'' = Some (opt_val VStrDict p)"
    "map_of r ''names'' = map_of I ''names''"
    using r(2) k1 k2(1) by simp_all
  then show ?thesis using r(1,3) k2(2) unfolding r1_def base_def by simp
qed

lemma assemble_no_common_name:
  assumes "info_ok I"
    and "case sub of None \<Rightarrow> True | Some sd \<Rightarrow> map_of sd ''common_name'' = None"
  shows "\<exists>e. assemble m d sub i p ocsp (or_none I) = Inl e"
proof -
  from assemble_coerced[OF assms(1), of m d sub i p ocsp] obtain r where
    r: "coerce_length
          (dict_update
             [(''modified'', VInt m), (''dates'', opt_val VIntDict d),
              (''subject'', opt_val VStrDict sub), (''issuer'', opt_val VStrDict i),
              (''purpose'', opt_val VStrDict p), (''ocsp_uri'', opt_val VStr ocsp)] I) = Inr r"
      "map_of r ''subject'' = Some (opt_val VStrDict sub)" by blast
  have "\<exists>e. subject_common_name r = Inl e"
    using r(2) assms(2) by (auto simp: subject_common_name_def opt_val_def split: option.splits)
  then obtain e where "reconcile_names r = Inl e" using reconcile_names_raises by blast
  then show ?thesis using r(1) by (simp add: assemble_eq or_none_content)
qed

lemma assemble_Inr:
  assumes "info_ok I" and "assemble m d sub i p ocsp (or_none I) = Inr res"
  shows "\<exists>sd cn. sub = Some sd \<and> map_of sd ''common_name'' = Some cn \<and>
           map_of res ''modified'' = Some (VInt m) \<and>
           map_of res ''subject'' = Some (VStrDict sd) \<and>
           map_of res ''issuer'' = Some (opt_val VStrDict i) \<and>
           map_of res ''purpose'' = Some (opt_val VStrDict p) \<and>
           map_of res ''names'' =
             Some (VList (case map_of I ''names'' of
                            Some (VList ns) \<Rightarrow> (if cn \<in> set ns then ns else ns @ [cn])
                          | _ \<Rightarrow> [cn])) \<and>
           map_of res ''length'' =
             (case map_of I ''length'' of
                None \<Rightarrow> None
              | Some v \<Rightarrow> (case int_of v of Inl e \<Rightarrow> None | Inr n \<Rightarrow> Some (VInt n)))"
proof -
  from assemble_coerced[OF assms(1), of m d sub i p ocsp] obtain r where
    r: "coerce_length
          (dict_update
             [(''modified'', VInt m), (''dates'', opt_val VIntDict d),
              (''subject'', opt_val VStrDict sub), (''issuer'', opt_val VStrDict i),
              (''purpose'', opt_val VStrDict p), (''ocsp_uri'', opt_val VStr ocsp)] I) = Inr r"
      "map_of r ''modified'' = Some (VInt m)"
      "map_of r ''subject'' = Some (opt_val VStrDict sub)"
      "map_of r ''issuer'' = Some (opt_val VStrDict i)"
      "map_of r ''purpose'' = Some (opt_val VStrDict p)"
      "map_of r ''names'' = map_of I ''names''"
      "map_of r ''length'' =
         (case map_of I ''length'' of
            None \<Rightarrow> None
          | Some v \<Rightarrow> (case int_of v of Inl e \<Rightarrow> None | Inr n \<Rightarrow> Some (VInt n)))" by blast
  have rec: "reconcile_names r = Inr res"
    using assms(2) r(1) by (simp add: assemble_eq or_none_content)
  from reconcile_names_Inr[OF rec] obtain cn where
    cn: "subject_common_name r = Inr cn"
      "map_of res ''names'' =
         Some (VList (case map_of r ''names'' of
                        Some (VList ns) \<Rightarrow>
                          (if ns = [] then [cn] else if cn \<in> set ns then ns else ns @ [cn])
                      | _ \<Rightarrow> [cn]))" by blast
  from cn(1) obtain sd where
    sd: "map_of r ''subject'' = Some (VStrDict sd)" "map_of sd ''common_name'' = Some cn"
    using subject_common_name_Inr by blast
  have sub: "sub = Some sd" using sd(1) r(3) by (cases sub) (simp_all add: opt_val_def)
  have frame: "\<And>k. k \<noteq> ''names'' \<Longrightarrow> map_of res k = map_of r k"
    using reconcile_names_frame[OF rec] by simp
  have names: "map_of res ''names'' =
      Some (VList (case map_of I ''names'' of
                     Some (VList ns) \<Rightarrow> (if cn \<in> set ns then ns else ns @ [cn])
                   | _ \<Rightarrow> [cn]))"
    using cn(2) r(6) info_ok_names[OF assms(1)] by auto
  show ?thesis
    using sub sd(2) names frame r(2,3,4,5,7) by (simp add: opt_val_def)
qed

lemma assemble_succeeds:
  assumes "info_ok I" and "map_of sd ''common_name'' = Some cn"
  shows "\<exists>res. assemble m d (Some sd) i p ocsp (or_none I) = Inr res"
proof -
  from assemble_coerced[OF assms(1), of m d "Some sd" i p ocsp] obtain r where
    r: "coerce_length
          (dict_update
             [(''modified'', VInt m), (''dates'', opt_val VIntDict d),
              (''subject'', opt_val VStrDict (Some sd)), (''issuer'', opt_val VStrDict i),
              (''purpose'', opt_val VStrDict p), (''ocsp_uri'', opt_val VStr ocsp)] I) = Inr r"
      "map_of r ''subject'' = Some (opt_val VStrDict (Some sd))"
      "map_of r ''names'' = map_of I ''names''" by blast
  have "subject_common_name r = Inr cn"
    using r(2) assms(2) by (simp add: subject_common_name_Inr opt_val_def)
  then obtain res where "reconcile_names r = Inr res"
    using reconcile_names_ok info_ok_names[OF assms(1)] r(3) by metis
  then show ?thesis using r(1) by (simp add: assemble_eq or_none_content)
qed

section \<open>The orchestrator, step by step\<close>

lemma fst_certificate_dates:
  "fst (certificate_dates env f) =
     (case subp_call env (openssl_cmd f ''dates'') of
        Inl e \<Rightarrow> Inl e | Inr (out, err) \<Rightarrow> dates_lines env out)"
  by (simp add: certificate_dates_def subp_run_def split: sum.splits prod.splits)

lemma fst_certificate_subject:
  "fst (certificate_subject env f) =
     (case subp_call env (openssl_cmd f ''subject'') of
        Inl e \<Rightarrow> Inl e | Inr (out, err) \<Rightarrow> Inr (dn_lines out))"
  by (simp add: certificate_subject_def subp_run_def split: sum.splits prod.splits)

lemma fst_certificate_issuer:
  "fst (certificate_issuer env f) =
     (case subp_call env (openssl_cmd f ''issuer'') of
        Inl e \<Rightarrow> Inl e | Inr (out, err) \<Rightarrow> Inr (dn_lines out))"
  by (simp add: certificate_issuer_def subp_run_def split: sum.splits prod.splits)

lemma fst_certificate_purpose:
  "fst (certificate_purpose env f) =
     (case subp_call env (openssl_cmd f ''purpose'') of
        Inl e \<Rightarrow> Inl e | Inr (out, err) \<Rightarrow> Inr (purpose_lines out))"
  by (simp add: certificate_purpose_def subp_run_def split: sum.splits prod.splits)

lemma fst_certificate_ocsp_uri:
  "fst (certificate_ocsp_uri env f) =
     (case subp_call env (openssl_cmd f ''ocsp_uri'') of
        Inl e \<Rightarrow> Inl e | Inr (out, err) \<Rightarrow> ocsp_lines out)"
  by (simp add: certificate_ocsp_uri_def subp_run_def split: sum.splits prod.splits)

lemma fst_certificate_full:
  "fst (certificate_full env f) =
     (case subp_call env (openssl_cmd f ''text'') of
        Inl e \<Rightarrow> Inl e | Inr (out, err) \<Rightarrow> full_lines out)"
  by (simp add: certificate_full_def subp_run_def split: sum.splits prod.splits)

lemma fst_then_do:
  "fst (then_do m f) = (case fst m of Inl e \<Rightarrow> Inl e | Inr a \<Rightarrow> fst (f a))"
  by (cases m) (auto simp: then_do_def split: sum.splits prod.splits)

lemma fst_analysis_body:
  "fst (analysis_body env f) =
     (case getmtime env f of Inl e \<Rightarrow> Inl e | Inr m \<Rightarrow>
     (case fst (certificate_dates env f) of Inl e \<Rightarrow> Inl e | Inr d \<Rightarrow>
     (case fst (certificate_subject env f) of Inl e \<Rightarrow> Inl e | Inr sub \<Rightarrow>
     (case fst (certificate_issuer env f) of Inl e \<Rightarrow> Inl e | Inr i \<Rightarrow>
     (case fst (certificate_purpose env f) of Inl e \<Rightarrow> Inl e | Inr p \<Rightarrow>
     (case fst (certificate_ocsp_uri env f) of Inl e \<Rightarrow> Inl e | Inr ocsp \<Rightarrow>
     (case fst (certificate_full env f) of Inl e \<Rightarrow> Inl e | Inr info \<Rightarrow>
        assemble m d sub i p ocsp info)))))))"
  by (simp add: analysis_body_def fst_then_do split: sum.splits)

lemma fst_ssl_analysis:
  "open_file env f = None \<Longrightarrow>
     fst (ssl_analysis env f) =
       (case fst (analysis_body env f) of Inl e \<Rightarrow> Inr None | Inr r \<Rightarrow> Inr (Some r))"
  by (simp add: ssl_analysis_def split: prod.splits sum.splits)

lemma certificate_full_ok:
  assumes "fst (certificate_full env f) = Inr info"
  shows "\<exists>I. info = or_none I \<and> info_ok I"
proof -
  from assms obtain out err where "full_lines out = Inr info"
    by (auto simp: fst_certificate_full split: sum.splits)
  then show ?thesis using full_lines_result[of out] by auto
qed

lemma ssl_analysis_Some:
  assumes "fst (ssl_analysis env f) = Inr (Some res)"
  shows "\<exists>m d sub i p ocsp I. open_file env f = None \<and> getmtime env f = Inr m \<and>
           fst (certificate_dates env f) = Inr d \<and>
           fst (certificate_subject env f) = Inr sub \<and>
           fst (certificate_issuer env f) = Inr i \<and>
           fst (certificate_purpose env f) = Inr p \<and>
           fst (certificate_ocsp_uri env f) = Inr ocsp \<and>
           fst (certificate_full env f) = Inr (or_none I) \<and> info_ok I \<and>
           assemble m d sub i p ocsp (or_none I) = Inr res"
proof -
  have op: "open_file env f = None"
    using assms by (auto simp: ssl_analysis_def split: option.splits if_splits)
  then have body: "fst (analysis_body env f) = Inr res"
    using assms by (auto simp: fst_ssl_analysis split: sum.splits)
  then obtain m d sub i p ocsp info where
    parts: "getmtime env f = Inr m" "fst (certificate_dates env f) = Inr d"
      "fst (certificate_subject env f) = Inr sub" "fst (certificate_issuer env f) = Inr i"
      "fst (certificate_purpose env f) = Inr p" "fst (certificate_ocsp_uri env f) = Inr ocsp"
      "fst (certificate_full env f) = Inr info" "assemble m d sub i p ocsp info = Inr res"
    unfolding fst_analysis_body by (auto split: sum.splits)
  from certificate_full_ok[OF parts(7)] obtain I where "info = or_none I" "info_ok I" by blast
  then show ?thesis using op parts by blast
qed

lemma ssl_analysis_readable:
  assumes "open_file env f = None"
  shows "fst (ssl_analysis env f) = Inr None \<or> (\<exists>res. fst (ssl_analysis env f) = Inr (Some res))"
  using assms by (auto simp: fst_ssl_analysis split: sum.splits)

section \<open>Failing steps\<close>

lemma foldE_raises:
  assumes "x \<in> set xs" and "\<And>a. f a x = Inl E" and "\<And>a y e. f a y = Inl e \<Longrightarrow> e = E"
  shows "foldE f xs a = Inl E"
  using assms(1)
proof (induction xs arbitrary: a)
  case Nil
  then show ?case by simp
next
  case (Cons y ys)
  show ?case
  proof (cases "f a y")
    case (Inl e)
    then show ?thesis using assms(3) by simp
  next
    case (Inr a')
    show ?thesis
    proof (cases "x = y")
      case True
      then show ?thesis using assms(2)[of a] Inr by simp
    next
      case False
      then have "x \<in> set ys" using Cons.prems by simp
      then show ?thesis using Cons.IH Inr by simp
    qed
  qed
qed

lemma py_split_length: "length (py_split c [] s) = Suc (count_list s c)"
  by (induction s) (auto split: list.splits)

lemma dates_line_bad:
  assumes "line \<noteq> []" and "count_list line (CHR ''='') \<noteq> 1"
  shows "dates_line env results line = Inl ValueError"
proof -
  have "length (py_split (CHR ''='') [] line) \<noteq> 2"
    using assms(2) by (simp add: py_split_length)
  then show ?thesis
    using assms(1) by (auto simp: dates_line_def split: list.splits)
qed

lemma dates_line_exn: "dates_line env results line = Inl e \<Longrightarrow> e = ValueError"
  by (auto simp: dates_line_def split: if_splits list.splits option.splits)

lemma or_none_inj: "or_none a = or_none b \<Longrightarrow> a = b"
  by (auto simp: or_none_def split: if_splits)

lemma or_none_names:
  "(case or_none I of None \<Rightarrow> None | Some d \<Rightarrow> map_of d k) = map_of I k"
  by (simp add: or_none_def)

lemma analysis_body_no_common_name:
  assumes "fst (certificate_subject env filename) = Inr sub"
    and "case sub of None \<Rightarrow> True | Some sd \<Rightarrow> map_of sd ''common_name'' = None"
  shows "\<exists>e. fst (analysis_body env filename) = Inl e"
proof (cases "fst (analysis_body env filename)")
  case (Inl e)
  then show ?thesis by blast
next
  case (Inr res)
  then obtain m d i p ocsp info where
    parts: "fst (certificate_full env filename) = Inr info"
      "assemble m d sub i p ocsp info = Inr res"
    unfolding fst_analysis_body using assms(1) by (auto split: sum.splits)
  from certificate_full_ok[OF parts(1)] obtain I where I: "info = or_none I" "info_ok I"
    by blast
  from assemble_no_common_name[OF I(2) assms(2), of m d i p ocsp]
  show ?thesis using parts(2) I(1) by simp
qed

section \<open>The captured digits and their value\<close>

lemma digit_val_code:
  assumes "digit_char c"
  shows "digit_val c = of_char c - 48"
proof -
  have "list_all (\<lambda>d. digit_val d = of_char d - 48) ''0123456789''"
    by code_simp
  then show ?thesis using assms by (simp only: digit_char_def list_all_iff)
qed

lemma py_int_decimal:
  assumes "ds \<noteq> []" and "list_all digit_char ds"
  shows "py_int ds = Inr (decimal ds)"
proof -
  have "digit_char (hd ds)" using assms by (auto simp: list_all_iff)
  then have h: "hd ds \<noteq> CHR ''-''" "hd ds \<noteq> CHR ''+''" using digit_char_plain by auto
  have "fold (\<lambda>d n. 10 * n + digit_val d) ds 0 = fold (\<lambda>d n. 10 * n + (of_char d - 48)) ds 0"
  proof (rule fold_cong)
    fix x assume "x \<in> set ds"
    then have "digit_char x" using assms(2) by (simp add: list_all_iff)
    then show "(\<lambda>n. 10 * n + digit_val x) = (\<lambda>n. 10 * n + (of_char x - 48))"
      by (simp only: digit_val_code)
  qed simp_all
  then have "fold (\<lambda>d n. 10 * n + digit_val d) ds 0 = decimal ds"
    by (simp only: decimal_def foldl_conv_fold)
  then show ?thesis
    using assms h by (simp add: py_int_def py_strip_digits Let_def)
qed

lemma runs_length_form:
  assumes "(rest, gd) \<in> set (runs length_re s [])"
  shows "\<exists>pre ds suf. gd = [(''length'', ds)] \<and> ds \<noteq> [] \<and> list_all digit_char ds \<and>
           s = pre @ ''Public-Key: ('' @ ds @ suf"
proof -
  define k where "k = length ''Public-Key: (''"
  from assms obtain s0 r1 where
    s0: "s0 \<in> set (splits any_char s)"
    and lit: "take k s0 = ''Public-Key: (''"
    and r1: "r1 \<in> set (butlast (splits digit_char (drop k s0)))"
    and gd: "gd = [(''length'', take (length (drop k s0) - length r1) (drop k s0))]"
    unfolding length_re_def k_def by (auto split: if_splits)
  from splits_mem[OF s0] obtain pre where pre: "s = pre @ s0" by blast
  from splits_butlast_mem[OF r1] obtain w where
    w: "drop k s0 = w @ r1" "w \<noteq> []" "list_all digit_char w" by blast
  have "s0 = take k s0 @ drop k s0" by (simp only: append_take_drop_id)
  then have "s0 = ''Public-Key: ('' @ w @ r1" by (simp only: lit w(1))
  then have "s = pre @ ''Public-Key: ('' @ w @ r1" using pre by simp
  moreover have "gd = [(''length'', w)]" unfolding gd w(1) by simp
  ultimately show ?thesis using w(2,3) by blast
qed

lemma line_length_form:
  assumes "line_length line = Some ds"
  shows "ds \<noteq> [] \<and> list_all digit_char ds \<and>
         (\<exists>pre suf. line = pre @ ''Public-Key: ('' @ ds @ suf)"
proof -
  from assms obtain gd where gd: "re_match length_re line = Some gd" "map_of gd ''length'' = Some ds"
    by (auto simp: line_length_def split: option.splits)
  then obtain rest where "(rest, gd) \<in> set (runs length_re line [])"
    using re_match_Some by blast
  from runs_length_form[OF this] obtain pre ds' suf where
    "gd = [(''length'', ds')]" "ds' \<noteq> []" "list_all digit_char ds'"
    "line = pre @ ''Public-Key: ('' @ ds' @ suf" by blast
  then show ?thesis using gd(2) by auto
qed

lemma analysis_body_succeeds:
  assumes "getmtime env filename = Inr m"
    and "fst (certificate_dates env filename) = Inr d"
    and "fst (certificate_subject env filename) = Inr (Some sd)"
    and "map_of sd ''common_name'' = Some cn"
    and "fst (certificate_issuer env filename) = Inr i"
    and "fst (certificate_purpose env filename) = Inr p"
    and "fst (certificate_ocsp_uri env filename) = Inr ocsp"
    and "fst (certificate_full env filename) = Inr info"
  shows "\<exists>res. fst (analysis_body env filename) = Inr res"
proof -
  from certificate_full_ok[OF assms(8)] obtain I where I: "info = or_none I" "info_ok I" by blast
  from assemble_succeeds[OF I(2) assms(4), of m d i p ocsp] obtain res where
    "assemble m d (Some sd) i p ocsp (or_none I) = Inr res" by blast
  then have "fst (analysis_body env filename) = Inr res"
    using assms I(1) by (simp add: fst_analysis_body)
  then show ?thesis by blast
qed

lemma line_length_None: "line_length line = None \<longleftrightarrow> re_match length_re line = None"
proof
  assume "re_match length_re line = None"
  then show "line_length line = None" by (simp add: line_length_def)
next
  assume a: "line_length line = None"
  show "re_match length_re line = None"
  proof (cases "re_match length_re line")
    case None
    then show ?thesis .
  next
    case (Some gd)
    then obtain rest where "(rest, gd) \<in> set (runs length_re line [])"
      using re_match_Some by blast
    then obtain ds where "gd = [(''length'', ds)]" using runs_length by blast
    then show ?thesis using a Some by (simp add: line_length_def)
  qed
qed

section \<open>The example, evaluated\<close>

lemma example_analysis:
  "ssl_analysis example_env ''c.pem'' =
     (Inr (Some example_result),
      [''openssl x509 -in c.pem -noout -dates'', ''openssl x509 -in c.pem -noout -subject'',
       ''openssl x509 -in c.pem -noout -issuer'', ''openssl x509 -in c.pem -noout -purpose'',
       ''openssl x509 -in c.pem -noout -ocsp_uri'', ''openssl x509 -in c.pem -noout -text''])"
  by code_simp

lemma example_subject:
  "fst (certificate_subject example_env ''c.pem'') =
     Inr (Some [(''country'', ''US''), (''state'', ''California''),
                (''organization'', ''Example, Inc.''), (''common_name'', ''example.com'')])"
  by code_simp

lemma example_full:
  "fst (certificate_full example_env ''c.pem'') =
     Inr (Some [(''length'', VStr ''2048''),
                (''names'', VList [''example.com'', ''www.example.com''])])"
  by code_simp

lemma example_text:
  "subp_call example_env (openssl_cmd ''c.pem'' ''text'') =
     Inr ([''Public-Key: (2048 bit)'', ''X509v3 Subject Alternative Name:'',
           ''DNS:example.com, DNS:www.example.com'', ''''], [''''])"
  by code_simp

lemma public_key_2048:
  "line_length ''Public-Key: (2048 bit)'' = Some ''2048''"
  "py_int ''2048'' = Inr 2048"
  by code_simp+

lemma example_steps:
  "open_file example_env ''c.pem'' = None"
  "getmtime example_env ''c.pem'' = Inr 1500000000"
  "fst (certificate_dates example_env ''c.pem'') =
     Inr (Some [(''start'', 1577836800), (''end'', 1893456000)])"
  "fst (certificate_issuer example_env ''c.pem'') =
     Inr (Some [(''country'', ''US''), (''organization'', ''CA'')])"
  "fst (certificate_purpose example_env ''c.pem'') = Inr (Some [(''SSL client'', ''Yes'')])"
  "fst (certificate_ocsp_uri example_env ''c.pem'') = Inr (Some ''http://ocsp.example.com'')"
  by code_simp+

lemma example_names_appended:
  "result_entry
     (ssl_analysis
        (with_output example_env (openssl_cmd ''c.pem'' ''text'') [''DNS:www.example.com'', ''''])
        ''c.pem'') ''names'' =
   Some (VList [''www.example.com'', ''example.com''])"
  by code_simp

lemma example_names_created:
  "result_entry
     (ssl_analysis (with_output example_env (openssl_cmd ''c.pem'' ''text'') ['''']) ''c.pem'')
     ''names'' =
   Some (VList [''example.com''])"
  by code_simp

lemma example_length_4096:
  "result_entry
     (ssl_analysis
        (with_output example_env (openssl_cmd ''c.pem'' ''text'')
           [''                Public-Key: (4096 bit)'', ''''])
        ''c.pem'') ''length'' =
   Some (VInt 4096)"
  by code_simp

lemma decimal_examples: "decimal ''2048'' = 2048" "decimal ''4096'' = 4096" "decimal ''0512'' = 512"
  by code_simp+

section \<open>What reaches the caller\<close>

text \<open>
  C1, as amended. When \<^verbatim>\<open>open\<close> succeeds or fails with IOError, \<^verbatim>\<open>ssl_analysis\<close>
  raises nothing, whatever the command runner, \<^verbatim>\<open>getmtime\<close> and the date parser do:
  it returns \<^verbatim>\<open>None\<close>, or a dictionary that holds \<open>modified\<close>.
\<close>

theorem ssl_analysis_no_raise:
  assumes "open_file env filename = None \<or> open_file env filename = Some IOError"
  shows "fst (ssl_analysis env filename) = Inr None \<or>
         (\<exists>res m. fst (ssl_analysis env filename) = Inr (Some res) \<and>
                  map_of res ''modified'' = Some (VInt m))"
proof (cases "open_file env filename")
  case None
  show ?thesis
  proof (cases "fst (ssl_analysis env filename) = Inr None")
    case True
    then show ?thesis by simp
  next
    case False
    then obtain res where res: "fst (ssl_analysis env filename) = Inr (Some res)"
      using ssl_analysis_readable[OF None] by blast
    from ssl_analysis_Some[OF res] obtain m d sub i p ocsp I where
      "info_ok I" "assemble m d sub i p ocsp (or_none I) = Inr res" by blast
    from assemble_Inr[OF this] have "map_of res ''modified'' = Some (VInt m)" by blast
    then show ?thesis using res by blast
  qed
next
  case (Some e)
  then have "e = IOError" using assms by simp
  then show ?thesis using Some by (simp add: ssl_analysis_def)
qed

text \<open>
  The example certificate is readable and its analysis returns a dictionary.
\<close>

theorem ssl_analysis_no_raise_witness:
  "open_file example_env ''c.pem'' = None \<and>
   (\<exists>res m. fst (ssl_analysis example_env ''c.pem'') = Inr (Some res) \<and>
            map_of res ''modified'' = Some (VInt m))"
proof -
  have o: "open_file example_env ''c.pem'' = None" by (simp add: example_env_def)
  from ssl_analysis_no_raise [of example_env "''c.pem''"] o show ?thesis
    by (simp add: example_analysis example_result_def)
qed

text \<open>
  C1 as stated fails: the first \<^verbatim>\<open>try\<close> catches IOError only. Python 2 raises
  TypeError from \<^verbatim>\<open>open\<close> on a path that holds a NUL byte, and that exception reaches
  the caller.
\<close>

theorem ssl_analysis_open_type_error:
  "fst (ssl_analysis
          (example_env\<lparr>open_file := (\<lambda>f. if CHR 0x00 \<in> set f then Some TypeError else None)\<rparr>)
          [CHR ''c'', CHR 0x00]) = Inl TypeError"
  by (simp add: ssl_analysis_def)

section \<open>Algorithm lines and the DNS check\<close>

text \<open>
  C2 fails on the code. The line \<^verbatim>\<open>Signature Algorithm: DNS:example.com\<close> matches
  the signature-algorithm pattern, yet it gives \<open>names\<close> an entry: \<^verbatim>\<open>continue\<close> sits in
  the loop over the patterns, so it skips the DNS check for the pattern that matched
  only, and the two patterns that did not match ran the check before.
\<close>

theorem certificate_full_algorithm_line_names:
  "re_match signature_algorithm_re ''Signature Algorithm: DNS:example.com'' =
     Some [(''signature_algorithm'', ''DNS:example.com'')] \<and>
   fst (certificate_full
          (with_output example_env (openssl_cmd ''c.pem'' ''text'')
             [''Signature Algorithm: DNS:example.com''])
          ''c.pem'') =
     Inr (Some [(''names'', VList [''example.com'']),
                (''signature_algorithm'', VStr ''DNS:example.com'')])"
  by code_simp

section \<open>Names across lines\<close>

text \<open>
  C3, as amended. In a dump where no line with a DNS token matches an algorithm
  pattern, \<open>names\<close> is absent when no line has a token, and otherwise is the text
  after the colon of every token of the last line that has one, in order, duplicates
  kept: each such line stores a new list.
\<close>

theorem certificate_full_names_last_line:
  assumes "subp_call env (openssl_cmd filename ''text'') = Inr (out, err)"
    and "list_all (\<lambda>line. findall ssl_dns_regex line = [] \<or>
                          list_all (\<lambda>regex. re_match regex line = None) ssl_text_regexs) out"
  shows "\<exists>info. fst (certificate_full env filename) = Inr info \<and>
           (case info of None \<Rightarrow> None | Some d \<Rightarrow> map_of d ''names'') =
             (case filter (\<lambda>line. findall ssl_dns_regex line \<noteq> []) out of
                [] \<Rightarrow> None
              | l # ls \<Rightarrow>
                  Some (VList (map after_colon (findall ssl_dns_regex (last (l # ls))))))"
proof -
  from full_lines_result[of out] obtain I where
    I: "full_lines out = Inr (or_none I)"
      "map_of I ''names'' =
         (case filter san_line out of
            [] \<Rightarrow> None
          | l # ls \<Rightarrow> Some (VList (line_names (last (l # ls)))))" by blast
  have "\<And>line. line \<in> set out \<Longrightarrow> san_line line = (findall ssl_dns_regex line \<noteq> [])"
    using assms(2)
    by (auto simp: list_all_iff san_line_def dns_checked_def list_ex_iff ssl_text_regexs_def)
  then have flt: "filter san_line out = filter (\<lambda>line. findall ssl_dns_regex line \<noteq> []) out"
    by (simp cong: filter_cong)
  have "(case or_none I of None \<Rightarrow> None | Some d \<Rightarrow> map_of d ''names'') = map_of I ''names''"
    by (simp add: or_none_def)
  then show ?thesis
    using I assms(1) flt
    by (simp add: fst_certificate_full line_names_def split: list.splits)
qed

text \<open>
  The dump of the example meets the hypotheses; its names come from its one line
  with tokens.
\<close>

theorem certificate_full_names_last_line_witness:
  "subp_call example_env (openssl_cmd ''c.pem'' ''text'') =
     Inr ([''Public-Key: (2048 bit)'', ''X509v3 Subject Alternative Name:'',
           ''DNS:example.com, DNS:www.example.com'', ''''], ['''']) \<and>
   fst (certificate_full example_env ''c.pem'') =
     Inr (Some [(''length'', VStr ''2048''),
                (''names'', VList [''example.com'', ''www.example.com''])])"
proof -
  have c: "subp_call example_env (openssl_cmd ''c.pem'' ''text'') =
     Inr ([''Public-Key: (2048 bit)'', ''X509v3 Subject Alternative Name:'',
           ''DNS:example.com, DNS:www.example.com'', ''''], [''''])"
    by code_simp
  have h: "list_all (\<lambda>line. findall ssl_dns_regex line = [] \<or>
                          list_all (\<lambda>regex. re_match regex line = None) ssl_text_regexs)
     [''Public-Key: (2048 bit)'', ''X509v3 Subject Alternative Name:'',
      ''DNS:example.com, DNS:www.example.com'', '''']"
    by code_simp
  from certificate_full_names_last_line [OF c h] show ?thesis
    using c example_full by simp
qed

text \<open>
  C3 as stated fails: with tokens on two lines, the first line's name is not in the
  result.
\<close>

theorem certificate_full_names_overwritten:
  "fst (certificate_full
          (with_output example_env (openssl_cmd ''c.pem'' ''text'')
             [''DNS:a.example.com'', ''DNS:b.example.com''])
          ''c.pem'') =
     Inr (Some [(''names'', VList [''b.example.com''])])"
  by code_simp

section \<open>The OCSP URI\<close>

text \<open>
  C4, as amended. When the tool's output has at least one line,
  \<^verbatim>\<open>certificate_ocsp_uri\<close> raises nothing: it returns the first line as it is when
  that line is not empty, and \<^verbatim>\<open>None\<close> when it is empty, as for a tool that printed
  nothing.
\<close>

theorem certificate_ocsp_uri_first_line:
  assumes "subp_call env (openssl_cmd filename ''ocsp_uri'') = Inr (first # rest, err)"
  shows "fst (certificate_ocsp_uri env filename) = Inr (if first = [] then None else Some first)"
  using assms by (simp add: fst_certificate_ocsp_uri ocsp_lines_def index_at_def)

text \<open>
  The example prints one URI and the empty last line.
\<close>

theorem certificate_ocsp_uri_first_line_witness:
  "subp_call example_env (openssl_cmd ''c.pem'' ''ocsp_uri'') =
     Inr (''http://ocsp.example.com'' # [''''], ['''']) \<and>
   fst (certificate_ocsp_uri example_env ''c.pem'') = Inr (Some ''http://ocsp.example.com'')"
proof -
  have c: "subp_call example_env (openssl_cmd ''c.pem'' ''ocsp_uri'') =
     Inr (''http://ocsp.example.com'' # [''''], [''''])"
    by code_simp
  from certificate_ocsp_uri_first_line [OF c] show ?thesis using c by simp
qed

text \<open>
  C4 as stated fails: on an output with no line at all, \<^verbatim>\<open>openssl_out[0]\<close> raises
  IndexError, the exception leaves \<^verbatim>\<open>certificate_ocsp_uri\<close>, and the analysis of the
  otherwise well-formed example returns \<^verbatim>\<open>None\<close>.
\<close>

theorem certificate_ocsp_uri_no_lines:
  "fst (certificate_ocsp_uri
          (with_output example_env (openssl_cmd ''c.pem'' ''ocsp_uri'') []) ''c.pem'') =
     Inl IndexError \<and>
   fst (ssl_analysis
          (with_output example_env (openssl_cmd ''c.pem'' ''ocsp_uri'') []) ''c.pem'') =
     Inr None"
  by code_simp

section \<open>A subject without a common name\<close>

text \<open>
  C5. On a readable file whose subject extractor returns \<^verbatim>\<open>None\<close> or a dictionary
  without \<open>common_name\<close>, \<^verbatim>\<open>ssl_analysis\<close> returns \<^verbatim>\<open>None\<close>; and on every result
  dictionary that holds such a subject, the reconciliation of the names raises.
\<close>

theorem ssl_analysis_no_common_name:
  assumes "open_file env filename = None"
    and "fst (certificate_subject env filename) = Inr sub"
    and "case sub of None \<Rightarrow> True | Some sd \<Rightarrow> map_of sd ''common_name'' = None"
  shows "fst (ssl_analysis env filename) = Inr None \<and>
         (\<forall>results. map_of results ''subject'' = Some (opt_val VStrDict sub) \<longrightarrow>
                    (\<exists>e. reconcile_names results = Inl e))"
proof
  from analysis_body_no_common_name[OF assms(2,3)]
  show "fst (ssl_analysis env filename) = Inr None"
    using assms(1) by (auto simp: fst_ssl_analysis)
next
  show "\<forall>results. map_of results ''subject'' = Some (opt_val VStrDict sub) \<longrightarrow>
                   (\<exists>e. reconcile_names results = Inl e)"
  proof (intro allI impI)
    fix results
    assume "map_of results ''subject'' = Some (opt_val VStrDict sub)"
    then have "\<exists>e. subject_common_name results = Inl e"
      using assms(3)
      by (auto simp: subject_common_name_def opt_val_def split: option.splits)
    then show "\<exists>e. reconcile_names results = Inl e"
      using reconcile_names_raises by blast
  qed
qed

text \<open>
  The example with a subject line that has a country only.
\<close>

theorem ssl_analysis_no_common_name_witness:
  "open_file (with_output example_env (openssl_cmd ''c.pem'' ''subject'')
                [''subject= /C=US'', '''']) ''c.pem'' = None \<and>
   fst (certificate_subject
          (with_output example_env (openssl_cmd ''c.pem'' ''subject'')
             [''subject= /C=US'', '''']) ''c.pem'') = Inr (Some [(''country'', ''US'')]) \<and>
   map_of [(''country'', ''US'')] ''common_name'' = None \<and>
   fst (ssl_analysis
          (with_output example_env (openssl_cmd ''c.pem'' ''subject'')
             [''subject= /C=US'', '''']) ''c.pem'') = Inr None"
proof -
  have o: "open_file (with_output example_env (openssl_cmd ''c.pem'' ''subject'')
                [''subject= /C=US'', '''']) ''c.pem'' = None"
    by (simp add: with_output_def example_env_def)
  have s: "fst (certificate_subject
          (with_output example_env (openssl_cmd ''c.pem'' ''subject'')
             [''subject= /C=US'', '''']) ''c.pem'') = Inr (Some [(''country'', ''US'')])"
    by code_simp
  have h: "case Some [(''country'', ''US'')] of None \<Rightarrow> True
           | Some sd \<Rightarrow> map_of sd ''common_name'' = None" by simp
  from ssl_analysis_no_common_name [OF o s h] show ?thesis using o s by simp
qed

section \<open>The readability check\<close>

text \<open>
  C6, as amended. When \<^verbatim>\<open>open\<close> raises IOError, the exception the readability check
  catches, \<^verbatim>\<open>ssl_analysis\<close> returns \<^verbatim>\<open>None\<close> and the command runner receives no call:
  no extractor runs. When \<^verbatim>\<open>open\<close> raises another exception, the command runner
  receives no call either, and the exception reaches the caller.
\<close>

theorem ssl_analysis_open_fails:
  "open_file env filename = Some e \<Longrightarrow>
     ssl_analysis env filename = (if e = IOError then Inr None else Inl e, [])"
  by (simp add: ssl_analysis_def)

text \<open>
  The example with a file that cannot be read.
\<close>

theorem ssl_analysis_open_fails_witness:
  "open_file (example_env\<lparr>open_file := (\<lambda>f. Some IOError)\<rparr>) ''c.pem'' = Some IOError \<and>
   ssl_analysis (example_env\<lparr>open_file := (\<lambda>f. Some IOError)\<rparr>) ''c.pem'' = (Inr None, [])"
  using ssl_analysis_open_fails [of "example_env\<lparr>open_file := (\<lambda>f. Some IOError)\<rparr>" "''c.pem''" IOError]
  by simp

text \<open>
  C6 as stated fails: a path that holds a NUL byte cannot be opened, Python 2 raises
  TypeError for it, and the caller gets that exception instead of \<^verbatim>\<open>None\<close>.
\<close>

theorem ssl_analysis_open_fails_otherwise:
  "ssl_analysis
     (example_env\<lparr>open_file := (\<lambda>f. if CHR 0x00 \<in> set f then Some TypeError else None)\<rparr>)
     [CHR ''c'', CHR 0x00, CHR ''.'', CHR ''p'', CHR ''e'', CHR ''m''] = (Inl TypeError, [])"
  by (simp add: ssl_analysis_def)

section \<open>The names of a result\<close>

text \<open>
  C7. When \<^verbatim>\<open>ssl_analysis\<close> returns a dictionary, its subject is the extracted one
  and has a common name, and \<open>names\<close> is a non-empty list that contains it: the list
  of \<^verbatim>\<open>certificate_full\<close> unchanged when the common name is in it, that list with the
  common name appended when it is not, and the common name alone when
  \<^verbatim>\<open>certificate_full\<close> found no names. And a dictionary is returned on every readable
  file where \<^verbatim>\<open>getmtime\<close> and every extractor return and the subject has a common
  name.
\<close>

theorem names_contain_common_name:
  "(\<forall>res. fst (ssl_analysis env filename) = Inr (Some res) \<longrightarrow>
      (\<exists>sd cn ns info.
         fst (certificate_subject env filename) = Inr (Some sd) \<and>
         map_of res ''subject'' = Some (VStrDict sd) \<and>
         map_of sd ''common_name'' = Some cn \<and>
         map_of res ''names'' = Some (VList ns) \<and> ns \<noteq> [] \<and> cn \<in> set ns \<and>
         fst (certificate_full env filename) = Inr info \<and>
         ns = (case (case info of None \<Rightarrow> None | Some d \<Rightarrow> map_of d ''names'') of
                 Some (VList san) \<Rightarrow> (if cn \<in> set san then san else san @ [cn])
               | _ \<Rightarrow> [cn]))) \<and>
   (\<forall>m d sd cn i p ocsp info.
      open_file env filename = None \<and> getmtime env filename = Inr m \<and>
      fst (certificate_dates env filename) = Inr d \<and>
      fst (certificate_subject env filename) = Inr (Some sd) \<and>
      map_of sd ''common_name'' = Some cn \<and>
      fst (certificate_issuer env filename) = Inr i \<and>
      fst (certificate_purpose env filename) = Inr p \<and>
      fst (certificate_ocsp_uri env filename) = Inr ocsp \<and>
      fst (certificate_full env filename) = Inr info \<longrightarrow>
      (\<exists>res. fst (ssl_analysis env filename) = Inr (Some res)))"
proof (intro conjI allI impI)
  fix res
  assume a: "fst (ssl_analysis env filename) = Inr (Some res)"
  from ssl_analysis_Some[OF a] obtain m d sub i p ocsp I where
    parts: "fst (certificate_subject env filename) = Inr sub"
      "fst (certificate_full env filename) = Inr (or_none I)" "info_ok I"
      "assemble m d sub i p ocsp (or_none I) = Inr res" by blast
  from assemble_Inr[OF parts(3,4)] obtain sd cn where
    r: "sub = Some sd" "map_of sd ''common_name'' = Some cn"
      "map_of res ''subject'' = Some (VStrDict sd)"
      "map_of res ''names'' =
         Some (VList (case map_of I ''names'' of
                        Some (VList ns) \<Rightarrow> (if cn \<in> set ns then ns else ns @ [cn])
                      | _ \<Rightarrow> [cn]))" by blast
  define ns where "ns = (case map_of I ''names'' of
                        Some (VList ns) \<Rightarrow> (if cn \<in> set ns then ns else ns @ [cn])
                      | _ \<Rightarrow> [cn])"
  have mem: "cn \<in> set ns" "ns \<noteq> []"
    unfolding ns_def by (auto split: option.splits pyval.splits)
  have "ns = (case (case or_none I of None \<Rightarrow> None | Some d \<Rightarrow> map_of d ''names'') of
                   Some (VList san) \<Rightarrow> (if cn \<in> set san then san else san @ [cn])
                 | _ \<Rightarrow> [cn])"
    unfolding ns_def or_none_names ..
  then show "\<exists>sd cn ns info.
         fst (certificate_subject env filename) = Inr (Some sd) \<and>
         map_of res ''subject'' = Some (VStrDict sd) \<and>
         map_of sd ''common_name'' = Some cn \<and>
         map_of res ''names'' = Some (VList ns) \<and> ns \<noteq> [] \<and> cn \<in> set ns \<and>
         fst (certificate_full env filename) = Inr info \<and>
         ns = (case (case info of None \<Rightarrow> None | Some d \<Rightarrow> map_of d ''names'') of
                 Some (VList san) \<Rightarrow> (if cn \<in> set san then san else san @ [cn])
               | _ \<Rightarrow> [cn])"
    using parts(1,2) r(1,2,3) r(4)[folded ns_def] mem by blast
next
  fix m d sd cn i p ocsp info
  assume h: "open_file env filename = None \<and> getmtime env filename = Inr m \<and>
      fst (certificate_dates env filename) = Inr d \<and>
      fst (certificate_subject env filename) = Inr (Some sd) \<and>
      map_of sd ''common_name'' = Some cn \<and>
      fst (certificate_issuer env filename) = Inr i \<and>
      fst (certificate_purpose env filename) = Inr p \<and>
      fst (certificate_ocsp_uri env filename) = Inr ocsp \<and>
      fst (certificate_full env filename) = Inr info"
  then obtain res where "fst (analysis_body env filename) = Inr res"
    using analysis_body_succeeds[of env filename m d sd cn i p ocsp info] by blast
  then show "\<exists>res. fst (ssl_analysis env filename) = Inr (Some res)"
    using h by (simp add: fst_ssl_analysis)
qed

text \<open>
  The example, where the common name is among the two names found; a dump with
  another name only, where it is appended; a dump without names, where the list is
  created.
\<close>

theorem names_contain_common_name_witness:
  "fst (ssl_analysis example_env ''c.pem'') = Inr (Some example_result) \<and>
   map_of example_result ''names'' = Some (VList [''example.com'', ''www.example.com'']) \<and>
   result_entry
     (ssl_analysis
        (with_output example_env (openssl_cmd ''c.pem'' ''text'') [''DNS:www.example.com'', ''''])
        ''c.pem'') ''names'' =
     Some (VList [''www.example.com'', ''example.com'']) \<and>
   result_entry
     (ssl_analysis (with_output example_env (openssl_cmd ''c.pem'' ''text'') ['''']) ''c.pem'')
     ''names'' =
     Some (VList [''example.com'']) \<and>
   (\<exists>sd cn ns info.
      fst (certificate_subject example_env ''c.pem'') = Inr (Some sd) \<and>
      map_of example_result ''subject'' = Some (VStrDict sd) \<and>
      map_of sd ''common_name'' = Some cn \<and>
      map_of example_result ''names'' = Some (VList ns) \<and> ns \<noteq> [] \<and> cn \<in> set ns \<and>
      fst (certificate_full example_env ''c.pem'') = Inr info \<and>
      ns = (case (case info of None \<Rightarrow> None | Some d \<Rightarrow> map_of d ''names'') of
              Some (VList san) \<Rightarrow> (if cn \<in> set san then san else san @ [cn])
            | _ \<Rightarrow> [cn]))"
proof -
  have cn: "map_of [(''country'', ''US''), (''state'', ''California''),
                    (''organization'', ''Example, Inc.''), (''common_name'', ''example.com'')]
              ''common_name'' = Some ''example.com''" by simp
  from names_contain_common_name [of example_env "''c.pem''", THEN conjunct2, rule_format,
      OF conjI [OF example_steps(1) conjI [OF example_steps(2) conjI [OF example_steps(3)
        conjI [OF example_subject conjI [OF cn conjI [OF example_steps(4)
        conjI [OF example_steps(5) conjI [OF example_steps(6) example_full]]]]]]]]]
  obtain res where "fst (ssl_analysis example_env ''c.pem'') = Inr (Some res)" by blast
  then have ex: "fst (ssl_analysis example_env ''c.pem'') = Inr (Some example_result)"
    by (simp add: example_analysis)
  have n: "map_of example_result ''names'' = Some (VList [''example.com'', ''www.example.com''])"
    by (simp add: example_result_def)
  from names_contain_common_name [of example_env "''c.pem''", THEN conjunct1, rule_format, OF ex]
  show ?thesis
    using ex n example_names_appended example_names_created by blast
qed

section \<open>Subject, issuer and purpose\<close>

text \<open>
  C8. The extractors of subject, issuer and purpose never return an empty
  dictionary, and no result of \<^verbatim>\<open>ssl_analysis\<close> holds an empty dictionary under
  \<open>subject\<close>, \<open>issuer\<close> or \<open>purpose\<close>.
\<close>

theorem sub_maps_never_empty:
  "fst (certificate_subject env filename) \<noteq> Inr (Some []) \<and>
   fst (certificate_issuer env filename) \<noteq> Inr (Some []) \<and>
   fst (certificate_purpose env filename) \<noteq> Inr (Some []) \<and>
   (\<forall>res. fst (ssl_analysis env filename) = Inr (Some res) \<longrightarrow>
          map_of res ''subject'' \<noteq> Some (VStrDict []) \<and>
          map_of res ''issuer'' \<noteq> Some (VStrDict []) \<and>
          map_of res ''purpose'' \<noteq> Some (VStrDict []))"
proof -
  have s: "fst (certificate_subject env filename) \<noteq> Inr (Some [])"
    by (auto simp: fst_certificate_subject dn_lines_def or_none_def split: sum.splits)
  have i: "fst (certificate_issuer env filename) \<noteq> Inr (Some [])"
    by (auto simp: fst_certificate_issuer dn_lines_def or_none_def split: sum.splits)
  have p: "fst (certificate_purpose env filename) \<noteq> Inr (Some [])"
    by (auto simp: fst_certificate_purpose purpose_lines_def or_none_def split: sum.splits)
  have "map_of res ''subject'' \<noteq> Some (VStrDict []) \<and>
        map_of res ''issuer'' \<noteq> Some (VStrDict []) \<and>
        map_of res ''purpose'' \<noteq> Some (VStrDict [])"
    if a: "fst (ssl_analysis env filename) = Inr (Some res)" for res
  proof -
    from ssl_analysis_Some[OF a] obtain m d sub iss pur ocsp I where
      parts: "fst (certificate_subject env filename) = Inr sub"
        "fst (certificate_issuer env filename) = Inr iss"
        "fst (certificate_purpose env filename) = Inr pur" "info_ok I"
        "assemble m d sub iss pur ocsp (or_none I) = Inr res" by blast
    from assemble_Inr[OF parts(4,5)] obtain sd where
      r: "sub = Some sd" "map_of res ''subject'' = Some (VStrDict sd)"
        "map_of res ''issuer'' = Some (opt_val VStrDict iss)"
        "map_of res ''purpose'' = Some (opt_val VStrDict pur)" by blast
    have "sd \<noteq> []" using s parts(1) r(1) by auto
    moreover have "opt_val VStrDict iss \<noteq> VStrDict []"
      using i parts(2) by (cases iss) (auto simp: opt_val_def)
    moreover have "opt_val VStrDict pur \<noteq> VStrDict []"
      using p parts(3) by (cases pur) (auto simp: opt_val_def)
    ultimately show ?thesis using r by simp
  qed
  then show ?thesis using s i p by blast
qed

text \<open>
  The three entries of the example's result.
\<close>

theorem sub_maps_never_empty_witness:
  "fst (ssl_analysis example_env ''c.pem'') = Inr (Some example_result) \<and>
   map_of example_result ''subject'' \<noteq> Some (VStrDict []) \<and>
   map_of example_result ''issuer'' \<noteq> Some (VStrDict []) \<and>
   map_of example_result ''purpose'' \<noteq> Some (VStrDict [])"
proof -
  have ex: "fst (ssl_analysis example_env ''c.pem'') = Inr (Some example_result)"
    by (simp add: example_analysis)
  from sub_maps_never_empty [of example_env "''c.pem''"] show ?thesis
    using ex by blast
qed

section \<open>The key length\<close>

text \<open>
  C9. In a dictionary that \<^verbatim>\<open>ssl_analysis\<close> returns, \<open>length\<close>, when present, is an
  integer. It is absent when no line of the full-text dump matches the Public-Key
  pattern, and otherwise it is the decimal value of the digits the pattern captures on
  the last line that matches; those digits follow \<^verbatim>\<open>Public-Key: (\<close> in the line. When
  the dump holds the line \<^verbatim>\<open>Public-Key: (2048 bit)\<close> and no later line matches,
  \<open>length\<close> is the integer 2048.
\<close>

theorem length_is_integer:
  assumes "fst (ssl_analysis env filename) = Inr (Some res)"
  shows "(\<forall>v. map_of res ''length'' = Some v \<longrightarrow> (\<exists>n. v = VInt n)) \<and>
         (\<forall>out err.
            subp_call env (openssl_cmd filename ''text'') = Inr (out, err) \<longrightarrow>
            map_of res ''length'' =
              (case filter (\<lambda>line. re_match length_re line \<noteq> None) out of
                 [] \<Rightarrow> None
               | l # ls \<Rightarrow> map_option (\<lambda>ds. VInt (decimal ds)) (line_length (last (l # ls))))) \<and>
         (\<forall>line ds.
            line_length line = Some ds \<longrightarrow>
            ds \<noteq> [] \<and> list_all digit_char ds \<and>
            (\<exists>pre suf. line = pre @ ''Public-Key: ('' @ ds @ suf)) \<and>
         (\<forall>pre post err.
            subp_call env (openssl_cmd filename ''text'') =
              Inr (pre @ ''Public-Key: (2048 bit)'' # post, err) \<and>
            list_all (\<lambda>line. re_match length_re line = None) post \<longrightarrow>
            map_of res ''length'' = Some (VInt 2048))"
proof -
  from ssl_analysis_Some[OF assms] obtain m d sub i p ocsp I where
    parts: "fst (certificate_full env filename) = Inr (or_none I)" "info_ok I"
      "assemble m d sub i p ocsp (or_none I) = Inr res" by blast
  from assemble_Inr[OF parts(2,3)] have
    len: "map_of res ''length'' =
            (case map_of I ''length'' of
               None \<Rightarrow> None
             | Some v \<Rightarrow> (case int_of v of Inl e \<Rightarrow> None | Inr n \<Rightarrow> Some (VInt n)))" by blast
  have typed: "\<forall>v. map_of res ''length'' = Some v \<longrightarrow> (\<exists>n. v = VInt n)"
    using len by (auto split: option.splits sum.splits)
  have general: "map_of res ''length'' =
      (case filter (\<lambda>line. re_match length_re line \<noteq> None) out of
         [] \<Rightarrow> None
       | l # ls \<Rightarrow> map_option (\<lambda>ds. VInt (decimal ds)) (line_length (last (l # ls))))"
    if c: "subp_call env (openssl_cmd filename ''text'') = Inr (out, err)" for out err
  proof -
    from full_lines_result[of out] obtain I' where
      I': "full_lines out = Inr (or_none I')"
        "map_of I' ''length'' =
           (case filter (\<lambda>l. line_length l \<noteq> None) out of
              [] \<Rightarrow> None
            | l # ls \<Rightarrow> map_option VStr (line_length (last (l # ls))))" by blast
    have "full_lines out = Inr (or_none I)"
      using parts(1) c by (simp add: fst_certificate_full)
    then have eq: "I' = I" using I'(1) or_none_inj by simp
    have flt: "filter (\<lambda>l. line_length l \<noteq> None) out =
               filter (\<lambda>line. re_match length_re line \<noteq> None) out"
      by (simp add: line_length_None)
    show ?thesis
    proof (cases "filter (\<lambda>line. re_match length_re line \<noteq> None) out")
      case Nil
      then show ?thesis using I'(2) len eq flt by simp
    next
      case (Cons l ls)
      define L where "L = last (l # ls)"
      have "L \<in> set (filter (\<lambda>line. re_match length_re line \<noteq> None) out)"
        unfolding L_def Cons by (rule last_in_set) simp
      then have "line_length L \<noteq> None" by (simp add: line_length_None)
      then obtain ds where ds: "line_length L = Some ds" by blast
      from line_length_form[OF ds] have "py_int ds = Inr (decimal ds)"
        using py_int_decimal by blast
      moreover have "map_of I ''length'' = Some (VStr ds)"
        using I'(2) eq flt Cons ds by (simp add: L_def)
      ultimately show ?thesis using len Cons ds by (simp add: L_def)
    qed
  qed
  have literal: "map_of res ''length'' = Some (VInt 2048)"
    if c: "subp_call env (openssl_cmd filename ''text'') =
             Inr (pre @ ''Public-Key: (2048 bit)'' # post, err)"
      and post: "list_all (\<lambda>line. re_match length_re line = None) post"
    for pre post err
  proof -
    have m: "re_match length_re ''Public-Key: (2048 bit)'' \<noteq> None"
      using public_key_2048(1) line_length_None by force
    have "filter (\<lambda>line. re_match length_re line \<noteq> None) post = []"
      using post by (auto simp: list_all_iff filter_empty_conv)
    then have "filter (\<lambda>line. re_match length_re line \<noteq> None)
                 (pre @ ''Public-Key: (2048 bit)'' # post) =
               filter (\<lambda>line. re_match length_re line \<noteq> None) pre @ [''Public-Key: (2048 bit)'']"
      using m by simp
    then show ?thesis
      using general[OF c]
      by (cases "filter (\<lambda>line. re_match length_re line \<noteq> None) pre")
         (simp_all add: public_key_2048(1) decimal_examples(1))
  qed
  show ?thesis using typed general line_length_form literal by blast
qed

text \<open>
  The dump of the example has that line first and no other Public-Key line; an
  indented line with 4096 gives 4096.
\<close>

theorem length_is_integer_witness:
  "fst (ssl_analysis example_env ''c.pem'') = Inr (Some example_result) \<and>
   subp_call example_env (openssl_cmd ''c.pem'' ''text'') =
     Inr ([''Public-Key: (2048 bit)'', ''X509v3 Subject Alternative Name:'',
           ''DNS:example.com, DNS:www.example.com'', ''''], ['''']) \<and>
   list_all (\<lambda>line. re_match length_re line = None)
     [''X509v3 Subject Alternative Name:'', ''DNS:example.com, DNS:www.example.com'', ''''] \<and>
   map_of example_result ''length'' = Some (VInt 2048) \<and>
   line_length ''Public-Key: (2048 bit)'' = Some ''2048'' \<and> decimal ''2048'' = 2048 \<and>
   result_entry
     (ssl_analysis
        (with_output example_env (openssl_cmd ''c.pem'' ''text'')
           [''                Public-Key: (4096 bit)'', ''''])
        ''c.pem'') ''length'' =
     Some (VInt 4096)"
proof -
  have ex: "fst (ssl_analysis example_env ''c.pem'') = Inr (Some example_result)"
    by (simp add: example_analysis)
  have p: "list_all (\<lambda>line. re_match length_re line = None)
     [''X509v3 Subject Alternative Name:'', ''DNS:example.com, DNS:www.example.com'', '''']"
    by code_simp
  from length_is_integer [OF ex, THEN conjunct2, THEN conjunct2, THEN conjunct2, rule_format,
      of "[]" "[''X509v3 Subject Alternative Name:'', ''DNS:example.com, DNS:www.example.com'', '''']"
         "['''']"]
  show ?thesis
    using ex p example_text public_key_2048(1) decimal_examples(1) example_length_4096 by simp
qed

section \<open>Malformed date lines\<close>

text \<open>
  C10. On a readable file, when the output of the dates command holds a non-empty
  line whose number of \<^verbatim>\<open>=\<close> is not one, \<^verbatim>\<open>certificate_dates\<close> raises ValueError and
  \<^verbatim>\<open>ssl_analysis\<close> returns \<^verbatim>\<open>None\<close>.
\<close>

theorem certificate_dates_unpack_failure:
  assumes "open_file env filename = None"
    and "subp_call env (openssl_cmd filename ''dates'') = Inr (out, err)"
    and "line \<in> set out" and "line \<noteq> []" and "count_list line (CHR ''='') \<noteq> 1"
  shows "fst (certificate_dates env filename) = Inl ValueError \<and>
         fst (ssl_analysis env filename) = Inr None"
proof -
  have "foldE (dates_line env) out [] = Inl ValueError"
    using assms(3) dates_line_bad[OF assms(4,5)] dates_line_exn
    by (rule foldE_raises)
  then have d: "fst (certificate_dates env filename) = Inl ValueError"
    using assms(2) by (simp add: fst_certificate_dates dates_lines_def)
  then have "\<exists>e. fst (analysis_body env filename) = Inl e"
    by (simp add: fst_analysis_body split: sum.splits)
  then show ?thesis using d assms(1) by (auto simp: fst_ssl_analysis)
qed

text \<open>
  The example with a dates line that has no \<^verbatim>\<open>=\<close>.
\<close>

theorem certificate_dates_unpack_failure_witness:
  "open_file (with_output example_env (openssl_cmd ''c.pem'' ''dates'') [''notBefore'', ''''])
     ''c.pem'' = None \<and>
   ''notBefore'' \<in> set [''notBefore'', ''''] \<and> ''notBefore'' \<noteq> [] \<and>
   count_list ''notBefore'' (CHR ''='') \<noteq> 1 \<and>
   fst (certificate_dates
          (with_output example_env (openssl_cmd ''c.pem'' ''dates'') [''notBefore'', ''''])
          ''c.pem'') = Inl ValueError \<and>
   fst (ssl_analysis
          (with_output example_env (openssl_cmd ''c.pem'' ''dates'') [''notBefore'', ''''])
          ''c.pem'') = Inr None"
proof -
  have o: "open_file (with_output example_env (openssl_cmd ''c.pem'' ''dates'')
             [''notBefore'', '''']) ''c.pem'' = None"
    by (simp add: with_output_def example_env_def)
  have c: "subp_call (with_output example_env (openssl_cmd ''c.pem'' ''dates'')
             [''notBefore'', '''']) (openssl_cmd ''c.pem'' ''dates'') =
           Inr ([''notBefore'', ''''], [''''])"
    by (simp add: with_output_def)
  have l: "''notBefore'' \<in> set [''notBefore'', '''']" "''notBefore'' \<noteq> []"
    "count_list ''notBefore'' (CHR ''='') \<noteq> 1" by simp_all
  from certificate_dates_unpack_failure [OF o c l] show ?thesis using o l by simp
qed

end
